theory Spec2Isabelle
  imports Complex_Main "HOL-Library.Sublist" "HOL-Library.Multiset"
    "HOL-Library.List_Lexorder" "HOL-Library.Char_ord"
begin

section \<open>Data model\<close>

text \<open>
  The mock backend of the frontend (the mock data module \<^verbatim>\<open>mockData.ts\<close> and the
  request handlers \<^verbatim>\<open>handlers.ts\<close> under \<^verbatim>\<open>src/mocks\<close>) keeps two
  module-level stores: the employees table \<^verbatim>\<open>MOCK_EMPLOYEES\<close> and the job registry
  \<^verbatim>\<open>MOCK_JOBS\<close>. JavaScript numbers that the code keeps integral are \<open>int\<close>;
  the fractional row counter of the progress timer, a double in the code, is an exact
  \<open>rat\<close> (the floors of the two agree on every update of every step). Time stamps are the ISO strings the code stores. Values drawn from the
  host (random identifiers, random numbers, clock readings) are inputs of the functions
  that draw them.
\<close>

datatype JobStatus = Pending | Processing | Completed | Failed

record JobError =
  row :: int
  field :: string
  message :: string

record Employee =
  id' :: string
  created_at :: string
  updated_at :: string
  employee_id :: string
  name :: string
  department_code :: string
  salary :: int
  hire_date :: string
  department_name :: "string option"
  annual_salary_eur :: int
  tenure_years :: int

record MockJob =
  job_id :: string
  filename :: string
  file_size :: int
  status :: JobStatus
  current_step :: string
  started_at :: string
  completed_at :: "string option"
  processed_rows :: int
  employee_count :: int

text \<open>JSON values, for the bodies the handlers answer with.\<close>

datatype json =
  JNull
| JString string
| JNumber int
| JArray "json list"
| JObject "(string \<times> json) list"

definition MOCK_JOB_ERRORS :: "JobError list" where
  "MOCK_JOB_ERRORS =
    [\<lparr>row = 15, field = ''salary'',
        message = ''Invalid numeric value: expected number, got '' @ [CHR 0x22] @ ''fifty'' @ [CHR 0x22]\<rparr>,
     \<lparr>row = 142, field = ''department_code'',
        message = ''Invalid department code: '' @ [CHR 0x22] @ ''fin'' @ [CHR 0x22] @ '' (expected uppercase)''\<rparr>,
     \<lparr>row = 156, field = ''employee_id'',
        message = ''Missing required field: employee_id''\<rparr>,
     \<lparr>row = 223, field = ''department_code'',
        message = ''Invalid department code: '' @ [CHR 0x22] @ ''ops'' @ [CHR 0x22] @ '' (expected uppercase)''\<rparr>,
     \<lparr>row = 259, field = ''name'',
        message = ''Name contains extra whitespace: '' @ [CHR 0x22] @ ''  Richard Allen  '' @ [CHR 0x22]\<rparr>,
     \<lparr>row = 329, field = ''department_code'',
        message = ''Department code contains extra whitespace: '' @ [CHR 0x22] @ ''  HR  '' @ [CHR 0x22]\<rparr>,
     \<lparr>row = 468, field = ''department_code'',
        message = ''Invalid department code: '' @ [CHR 0x22] @ ''hr'' @ [CHR 0x22] @ '' (expected uppercase)''\<rparr>,
     \<lparr>row = 512, field = ''hire_date'',
        message = ''Invalid date format: expected YYYY-MM-DD''\<rparr>]"

section \<open>The job registry and the simulated progression\<close>

text \<open>
  \<^verbatim>\<open>simulateJobProgress\<close> starts one chain of timers per call. The variables its
  callbacks close over are the state of that chain: \<open>currentStep\<close>, and, while a
  step's \<^verbatim>\<open>setInterval\<close> is armed, the interval's \<open>currentRows\<close>,
  \<open>rowsPerUpdate\<close> and \<open>endRows\<close>. \<open>timeout_pending\<close> says that a
  \<^verbatim>\<open>setTimeout\<close> of the chain is armed.
\<close>

record Step =
  step_name :: string
  duration :: int
  rows :: int

record ProgressInterval =
  currentRows :: rat
  rowsPerUpdate :: rat
  endRows :: rat

record Simulation =
  sim_job_id :: string
  currentStep :: nat
  progressInterval :: "ProgressInterval option"
  timeout_pending :: bool

record State =
  MOCK_JOBS :: "string \<rightharpoonup> MockJob"
  MOCK_EMPLOYEES :: "Employee list"
  simulations :: "Simulation list"

definition steps :: "Step list" where
  "steps =
    [\<lparr>step_name = ''pending'', duration = 1000, rows = 0\<rparr>,
     \<lparr>step_name = ''reading'', duration = 2000, rows = 100\<rparr>,
     \<lparr>step_name = ''validating'', duration = 3000, rows = 300\<rparr>,
     \<lparr>step_name = ''transforming'', duration = 4000, rows = 450\<rparr>,
     \<lparr>step_name = ''persisting'', duration = 2000, rows = 500\<rparr>]"

definition total_rows :: int where
  "total_rows = 508"

definition updateInterval :: int where
  "updateInterval = 200"

text \<open>
  \<^verbatim>\<open>processStep\<close>, the body of the step timer. The job object is mutated in
  place, so the registry is returned updated. Past the last step the job is completed
  and no timer is armed again.
\<close>

definition processStep ::
  "string \<Rightarrow> Simulation \<Rightarrow> (string \<rightharpoonup> MockJob) \<Rightarrow> Simulation \<times> (string \<rightharpoonup> MockJob)" where
  "processStep now sim jobs =
    (case jobs (sim_job_id sim) of
      None \<Rightarrow> (sim, jobs)
    | Some job0 \<Rightarrow>
        let job = (if currentStep sim = 0 then job0\<lparr>status := Processing\<rparr> else job0) in
        if currentStep sim < length steps then
          let step = steps ! currentStep sim;
              startRows = (if currentStep sim > 0 then rows (steps ! (currentStep sim - 1)) else 0);
              stepDuration = duration step;
              perUpdate = (of_int (rows step - startRows) :: rat)
                            / (of_int stepDuration / of_int updateInterval)
          in (sim\<lparr>currentStep := currentStep sim + 1,
                   progressInterval :=
                     Some \<lparr>currentRows = of_int startRows, rowsPerUpdate = perUpdate,
                           endRows = of_int (rows step)\<rparr>,
                   timeout_pending := True\<rparr>,
              jobs(sim_job_id sim \<mapsto> job\<lparr>current_step := step_name step\<rparr>))
        else
          (sim,
           jobs(sim_job_id sim \<mapsto>
             job\<lparr>status := Completed, current_step := ''completed'',
                 processed_rows := total_rows, completed_at := Some now,
                 employee_count := total_rows - int (length MOCK_JOB_ERRORS)\<rparr>)))"

text \<open>The callback of \<^verbatim>\<open>setInterval\<close>: one periodic update of \<open>processed_rows\<close>.\<close>

definition progressTick ::
  "ProgressInterval \<Rightarrow> Simulation \<Rightarrow> (string \<rightharpoonup> MockJob) \<Rightarrow> Simulation \<times> (string \<rightharpoonup> MockJob)" where
  "progressTick iv sim jobs =
    (case jobs (sim_job_id sim) of
      None \<Rightarrow> (sim\<lparr>progressInterval := None\<rparr>, jobs)
    | Some job \<Rightarrow>
        let cur = min (currentRows iv + rowsPerUpdate iv) (endRows iv) in
        (sim\<lparr>progressInterval := Some (iv\<lparr>currentRows := cur\<rparr>)\<rparr>,
         jobs(sim_job_id sim \<mapsto> job\<lparr>processed_rows := \<lfloor>cur\<rfloor>\<rparr>)))"

definition simulateJobProgress :: "string \<Rightarrow> State \<Rightarrow> State" where
  "simulateJobProgress jid s =
    (case MOCK_JOBS s jid of
      None \<Rightarrow> s
    | Some job \<Rightarrow>
        s\<lparr>simulations := simulations s @
            [\<lparr>sim_job_id = jid, currentStep = 0, progressInterval = None,
              timeout_pending = True\<rparr>]\<rparr>)"

text \<open>
  \<^verbatim>\<open>createMockJob\<close>; \<open>uuid\<close> is what \<^verbatim>\<open>crypto.randomUUID()\<close> returned
  and \<open>now\<close> the clock reading.
\<close>

definition createMockJob :: "string \<Rightarrow> int \<Rightarrow> string \<Rightarrow> string \<Rightarrow> State \<Rightarrow> string \<times> State" where
  "createMockJob fname fsize uuid now s =
    (uuid,
     simulateJobProgress uuid
       (s\<lparr>MOCK_JOBS := (MOCK_JOBS s)(uuid \<mapsto>
            \<lparr>job_id = uuid, filename = fname, file_size = fsize, status = Pending,
             current_step = ''pending'', started_at = now, completed_at = None,
             processed_rows = 0, employee_count = 0\<rparr>)\<rparr>))"

definition status_string :: "JobStatus \<Rightarrow> string" where
  "status_string st =
    (case st of Pending \<Rightarrow> ''pending'' | Processing \<Rightarrow> ''processing''
     | Completed \<Rightarrow> ''completed'' | Failed \<Rightarrow> ''failed'')"

definition error_json :: "JobError \<Rightarrow> json" where
  "error_json e =
    JObject [(''row'', JNumber (row e)), (''field'', JString (field e)),
             (''message'', JString (message e))]"

text \<open>
  \<^verbatim>\<open>getMockJobStatus\<close>: the object literal it returns, property by property in
  the order written, or \<open>None\<close> for \<^verbatim>\<open>null\<close>.
\<close>

definition getMockJobStatus :: "State \<Rightarrow> string \<Rightarrow> (string \<times> json) list option" where
  "getMockJobStatus s jid =
    (case MOCK_JOBS s jid of
      None \<Rightarrow> None
    | Some job \<Rightarrow>
        let error_rows = (if status job = Completed then int (length MOCK_JOB_ERRORS) else 0) in
        Some [(''job_id'', JString (job_id job)),
              (''filename'', JString (filename job)),
              (''status'', JString (status_string (status job))),
              (''current_step'', JString (current_step job)),
              (''total_rows'', JNumber 508),
              (''processed_rows'', JNumber (processed_rows job)),
              (''error_rows'', JNumber error_rows),
              (''errors'', JArray (if status job = Completed then map error_json MOCK_JOB_ERRORS else [])),
              (''started_at'', JString (started_at job)),
              (''completed_at'', (case completed_at job of None \<Rightarrow> JNull | Some t \<Rightarrow> JString t))])"

section \<open>The handlers of the mock API\<close>

record UploadFile =
  file_name :: string
  size_bytes :: int

text \<open>
  What \<^verbatim>\<open>formData.get('file')\<close> can be: nothing, a string field or a file. A
  request whose body is no form data makes \<^verbatim>\<open>request.formData()\<close> throw.
\<close>

datatype FormDataEntry = EntryString string | EntryFile UploadFile

datatype RequestBody = NotFormData | FormData "FormDataEntry option"

definition endsWith :: "string \<Rightarrow> string \<Rightarrow> bool" where
  "endsWith s suf = (length suf \<le> length s \<and> drop (length s - length suf) s = suf)"

definition detail :: "string \<Rightarrow> json" where
  "detail msg = JObject [(''detail'', JString msg)]"

text \<open>
  \<^verbatim>\<open>POST /api/upload\<close>. An exception inside the \<^verbatim>\<open>try\<close> block (no form data,
  or a string field, whose \<^verbatim>\<open>name\<close> is undefined) is answered with 500.
\<close>

definition upload_handler :: "State \<Rightarrow> RequestBody \<Rightarrow> string \<Rightarrow> string \<Rightarrow> (nat \<times> json) \<times> State" where
  "upload_handler s body uuid now =
    (case body of
      NotFormData \<Rightarrow> ((500, detail ''Upload failed''), s)
    | FormData None \<Rightarrow> ((400, detail ''No file provided''), s)
    | FormData (Some (EntryString str)) \<Rightarrow>
        if str = [] then ((400, detail ''No file provided''), s)
        else ((500, detail ''Upload failed''), s)
    | FormData (Some (EntryFile file)) \<Rightarrow>
        if \<not> endsWith (file_name file) ''.xlsx'' \<and> \<not> endsWith (file_name file) ''.xls''
        then ((400, detail ''Only .xlsx and .xls files are supported''), s)
        else if size_bytes file > 10 * 1024 * 1024
        then ((413, detail ''File size must be less than 10MB''), s)
        else
          let (jid, s') = createMockJob (file_name file) (size_bytes file) uuid now s
          in ((200, JObject [(''job_id'', JString jid)]), s'))"

text \<open>\<^verbatim>\<open>GET /api/status/:jobId\<close>.\<close>

definition status_handler :: "State \<Rightarrow> string \<Rightarrow> nat \<times> json" where
  "status_handler s jobId =
    (case getMockJobStatus s jobId of
      None \<Rightarrow> (404, detail ''Job not found'')
    | Some jobStatus \<Rightarrow> (200, JObject jobStatus))"

section \<open>Events\<close>

text \<open>
  What changes the stores after the module is loaded: an upload request, the step
  timer of a simulation firing, and a periodic update of a simulation firing. A timer
  fires only while it is armed; the order and the number of firings are left open, so
  every schedule of the browser's timers is covered.
\<close>

datatype event =
  Upload RequestBody string string
| Timeout nat string
| Tick nat

fun step :: "State \<Rightarrow> event \<Rightarrow> State" where
  "step s (Upload body uuid now) = snd (upload_handler s body uuid now)"
| "step s (Timeout k now) =
    (if k < length (simulations s) \<and> timeout_pending (simulations s ! k) then
       let (sim, jobs) =
             processStep now
               ((simulations s ! k)\<lparr>progressInterval := None, timeout_pending := False\<rparr>)
               (MOCK_JOBS s)
       in s\<lparr>MOCK_JOBS := jobs, simulations := (simulations s)[k := sim]\<rparr>
     else s)"
| "step s (Tick k) =
    (if k < length (simulations s) then
       (case progressInterval (simulations s ! k) of
         None \<Rightarrow> s
       | Some iv \<Rightarrow>
           let (sim, jobs) = progressTick iv (simulations s ! k) (MOCK_JOBS s)
           in s\<lparr>MOCK_JOBS := jobs, simulations := (simulations s)[k := sim]\<rparr>)
     else s)"

fun run :: "State \<Rightarrow> event list \<Rightarrow> State" where
  "run s [] = s"
| "run s (e # es) = run (step s e) es"

text \<open>
  \<^verbatim>\<open>crypto.randomUUID()\<close> is taken to return an identifier that names no job yet.
\<close>

fun fresh :: "State \<Rightarrow> event \<Rightarrow> bool" where
  "fresh s (Upload body uuid now) = (MOCK_JOBS s uuid = None)"
| "fresh s (Timeout k now) = True"
| "fresh s (Tick k) = True"

fun fresh_trace :: "State \<Rightarrow> event list \<Rightarrow> bool" where
  "fresh_trace s [] = True"
| "fresh_trace s (e # es) = (fresh s e \<and> fresh_trace (step s e) es)"

section \<open>The employees table and its generator\<close>

text \<open>
  Functions of the JavaScript host that the code calls and that depend on the machine
  (its time zone and locale) or on the tables of Unicode are parameters: the
  \<^verbatim>\<open>Date(year, month, day)\<close> constructor (as the epoch milliseconds of the date
  it builds), \<^verbatim>\<open>Date.prototype.toISOString\<close>,
  \<^verbatim>\<open>String.prototype.localeCompare\<close> and \<^verbatim>\<open>String.prototype.toLowerCase\<close>.
\<close>

record Host =
  mkDate :: "int \<Rightarrow> int \<Rightarrow> int \<Rightarrow> int"
  toISOString :: "int \<Rightarrow> string"
  localeCompare :: "string \<Rightarrow> string \<Rightarrow> int"
  toLowerCase :: "string \<Rightarrow> string"

text \<open>
  What one iteration of the generator's loop draws from the host:
  \<^verbatim>\<open>crypto.randomUUID()\<close>, the clock reading \<^verbatim>\<open>today\<close> (epoch milliseconds),
  the integer \<^verbatim>\<open>Math.floor(Math.random() * 65000)\<close>, which the host computes in
  doubles from its random number and lies between 0 and 64999, and the clock reading
  written to \<^verbatim>\<open>updated_at\<close>.
\<close>

record Draw =
  randomUUID :: string
  today :: int
  floor_random_65000 :: int
  now_iso :: string

definition DEPARTMENTS :: "string \<rightharpoonup> string" where
  "DEPARTMENTS =
    map_of [(''DEV'', ''Development''), (''FIN'', ''Finance''), (''MKT'', ''Marketing''),
            (''HR'', ''Human Resources''), (''RND'', ''Research & Development''),
            (''OPS'', ''Operations'')]"

definition names :: "string list" where
  "names =
    [''Kevin Davis'', ''Deborah Scott'', ''Kenneth Johnson'', ''Donna Moore'', ''Sarah Martinez'',
     ''Matthew Campbell'', ''Anthony Garcia'', ''Melissa Jones'', ''William Harris'', ''Brian Moore'',
     ''Edward Thomas'', ''Amanda Lee'', ''Sarah Jones'', ''Betty Robinson'', ''Donna Ramirez'',
     ''Patricia Davis'', ''Anthony Campbell'', ''Amanda Davis'', ''Christopher Ramirez'', ''Kevin Martin'',
     ''Andrew Wright'', ''Karen Thomas'', ''Andrew Rodriguez'', ''Edward Gonzalez'', ''Michael Perez'',
     ''Kevin Brown'', ''Brian Allen'', ''Jessica Young'', ''Mark Robinson'', ''Edward Perez'',
     ''Margaret Lopez'', ''Emily Miller'', ''Richard Clark'', ''James Harris'', ''Emily Allen'',
     ''Patricia Lee'', ''Paul Garcia'', ''Linda Peterson'', ''Joshua Wright'', ''Betty Rodriguez'',
     ''Michelle Peterson'', ''Matthew Jones'', ''Karen Wright'', ''David Taylor'', ''Susan Perez'',
     ''Patricia Garcia'', ''Charles Hernandez'', ''George Martinez'', ''Karen White'', ''William Thompson'']"

definition deptCodes :: "string list" where
  "deptCodes = [''DEV'', ''FIN'', ''MKT'', ''HR'', ''RND'', ''OPS'']"

text \<open>\<^verbatim>\<open>String(n)\<close> for a natural number: its decimal digits.\<close>

definition digit_char :: "nat \<Rightarrow> char" where
  "digit_char d = char_of (48 + d)"

function decimal :: "nat \<Rightarrow> string" where
  "decimal n = (if n < 10 then [digit_char n] else decimal (n div 10) @ [digit_char (n mod 10)])"
  by pat_completeness auto
termination
  by (relation "measure (\<lambda>n. n)") auto

declare decimal.simps [simp del]

text \<open>\<^verbatim>\<open>padStart(targetLength, c)\<close> with a one-character pad string.\<close>

definition padStart :: "nat \<Rightarrow> char \<Rightarrow> string \<Rightarrow> string" where
  "padStart targetLength c s = replicate (targetLength - length s) c @ s"

text \<open>\<^verbatim>\<open>Math.round\<close>: the nearest integer, a half rounded up.\<close>

definition Math_round :: "rat \<Rightarrow> int" where
  "Math_round x = \<lfloor>x + 1 / 2\<rfloor>"

text \<open>The milliseconds of the year the tenure is counted in: 365.25 days.\<close>

definition year_ms :: rat where
  "year_ms = (36525 / 100) * 24 * 60 * 60 * 1000"

text \<open>
  The body of the generator's loop at index \<open>i\<close>. The salary is an integer between
  35000 and 99999, so the product with 0.92 is a multiple of 0.04 up to the rounding
  of the floating-point product, which is too small to move \<^verbatim>\<open>Math.round\<close>; the
  product is taken exactly. So is the quotient of the elapsed milliseconds by the
  milliseconds of a year, whose distance from the next integer, when it is not one, is
  far above the rounding of the floating-point quotient.
\<close>

definition makeEmployee :: "Host \<Rightarrow> Draw \<Rightarrow> nat \<Rightarrow> Employee" where
  "makeEmployee host d i =
    (let deptCode = deptCodes ! (i mod length deptCodes);
         hireDate = mkDate host (2015 + int (i div 100)) (int (i mod 12)) (1 + int (i mod 28));
         tenureYears = \<lfloor>of_int (today d - hireDate) / year_ms\<rfloor>;
         salary = 35000 + floor_random_65000 d
     in \<lparr>id' = randomUUID d,
         created_at = toISOString host hireDate,
         updated_at = now_iso d,
         employee_id = ''E'' @ padStart 4 (CHR ''0'') (decimal (i + 1)),
         name = names ! (i mod length names),
         department_code = deptCode,
         salary = salary,
         hire_date = takeWhile (\<lambda>c. c \<noteq> CHR ''T'') (toISOString host hireDate),
         department_name = DEPARTMENTS deptCode,
         annual_salary_eur = Math_round (of_int salary * (92 / 100)),
         tenure_years = tenureYears\<rparr>)"

function generateEmployees_loop ::
  "Host \<Rightarrow> (nat \<Rightarrow> Draw) \<Rightarrow> nat \<Rightarrow> nat \<Rightarrow> Employee list \<Rightarrow> Employee list" where
  "generateEmployees_loop host draws cnt i employees =
    (if i < cnt
     then generateEmployees_loop host draws cnt (i + 1)
            (employees @ [makeEmployee host (draws i) i])
     else employees)"
  by pat_completeness auto
termination
  by (relation "measure (\<lambda>(host, draws, cnt, i, employees). cnt - i)") auto

declare generateEmployees_loop.simps [simp del]

definition generateEmployees :: "Host \<Rightarrow> (nat \<Rightarrow> Draw) \<Rightarrow> nat \<Rightarrow> Employee list" where
  "generateEmployees host draws cnt = generateEmployees_loop host draws cnt 0 []"

section \<open>The state after the module is loaded\<close>

text \<open>
  \<^verbatim>\<open>initializeSampleJobs\<close> installs three demo jobs; \<open>clock k\<close> is the reading of
  the \<open>k\<close>-th call of \<^verbatim>\<open>Date.now()\<close>.
\<close>

definition initializeSampleJobs ::
  "Host \<Rightarrow> (nat \<Rightarrow> int) \<Rightarrow> (string \<rightharpoonup> MockJob) \<Rightarrow> (string \<rightharpoonup> MockJob)" where
  "initializeSampleJobs host clock jobs =
    jobs(''demo-completed-job-001'' \<mapsto>
           \<lparr>job_id = ''demo-completed-job-001'', filename = ''employees_2024_q4.xlsx'',
            file_size = 245760, status = Completed, current_step = ''completed'',
            started_at = toISOString host (clock 0 - 2 * 60 * 60 * 1000),
            completed_at = Some (toISOString host (clock 1 - 2 * 60 * 60 * 1000 + 12000)),
            processed_rows = 508, employee_count = 500\<rparr>,
         ''demo-completed-job-002'' \<mapsto>
           \<lparr>job_id = ''demo-completed-job-002'', filename = ''january_payroll.xlsx'',
            file_size = 189440, status = Completed, current_step = ''completed'',
            started_at = toISOString host (clock 2 - 24 * 60 * 60 * 1000),
            completed_at = Some (toISOString host (clock 3 - 24 * 60 * 60 * 1000 + 12000)),
            processed_rows = 508, employee_count = 500\<rparr>,
         ''demo-failed-job-001'' \<mapsto>
           \<lparr>job_id = ''demo-failed-job-001'', filename = ''corrupted_data.xls'',
            file_size = 98304, status = Failed, current_step = ''validating'',
            started_at = toISOString host (clock 4 - 60 * 60 * 1000),
            completed_at = Some (toISOString host (clock 5 - 60 * 60 * 1000 + 3000)),
            processed_rows = 150, employee_count = 0\<rparr>)"

definition initial :: "Host \<Rightarrow> (nat \<Rightarrow> Draw) \<Rightarrow> (nat \<Rightarrow> int) \<Rightarrow> State" where
  "initial host draws clock =
    \<lparr>MOCK_JOBS = initializeSampleJobs host clock Map.empty,
     MOCK_EMPLOYEES = generateEmployees host draws 500,
     simulations = []\<rparr>"

section \<open>The employees listing\<close>

datatype SortOrder = Asc | Desc

text \<open>The value of a property of an employee object: a string or a number.\<close>

datatype jsvalue = VString string | VNumber int

text \<open>
  A number that may be the result of a division by zero, for \<^verbatim>\<open>total_pages\<close>.
\<close>

datatype jsnumber = Finite int | Infinity | NaN

record EmployeesPage =
  employees :: "Employee list"
  total :: int
  page :: int
  page_size :: int
  total_pages :: jsnumber

text \<open>\<^verbatim>\<open>includes\<close>: the argument occurs as a contiguous part of the string.\<close>

fun includes' :: "string \<Rightarrow> string \<Rightarrow> bool" where
  "includes' [] sub = (sub = [])"
| "includes' (c # cs) sub = (prefix sub (c # cs) \<or> includes' cs sub)"

text \<open>\<^verbatim>\<open>a[sort_by]\<close>: the property of an employee object with a given name.\<close>

definition employee_prop :: "Employee \<Rightarrow> string \<Rightarrow> jsvalue option" where
  "employee_prop e k =
    (if k = ''id'' then Some (VString (id' e))
     else if k = ''created_at'' then Some (VString (created_at e))
     else if k = ''updated_at'' then Some (VString (updated_at e))
     else if k = ''employee_id'' then Some (VString (employee_id e))
     else if k = ''name'' then Some (VString (name e))
     else if k = ''department_code'' then Some (VString (department_code e))
     else if k = ''salary'' then Some (VNumber (salary e))
     else if k = ''hire_date'' then Some (VString (hire_date e))
     else if k = ''department_name'' then map_option VString (department_name e)
     else if k = ''annual_salary_eur'' then Some (VNumber (annual_salary_eur e))
     else if k = ''tenure_years'' then Some (VNumber (tenure_years e))
     else None)"

text \<open>The comparator handed to \<^verbatim>\<open>sort\<close>.\<close>

definition compareEmployees :: "Host \<Rightarrow> string \<Rightarrow> SortOrder \<Rightarrow> Employee \<Rightarrow> Employee \<Rightarrow> int" where
  "compareEmployees host sort_by order a b =
    (case (employee_prop a sort_by, employee_prop b sort_by) of
      (Some (VString aValue), Some (VString bValue)) \<Rightarrow>
        (if order = Asc then localeCompare host aValue bValue
         else localeCompare host bValue aValue)
    | (Some (VNumber aValue), Some (VNumber bValue)) \<Rightarrow>
        (if order = Asc then aValue - bValue else bValue - aValue)
    | _ \<Rightarrow> 0)"

text \<open>
  \<^verbatim>\<open>Array.prototype.sort\<close> with a comparator. ECMAScript asks for a stable sort;
  for a comparator that orders the elements consistently every stable sort returns
  the list that this insertion sort returns.
\<close>

fun insert_sorted :: "('a \<Rightarrow> 'a \<Rightarrow> int) \<Rightarrow> 'a \<Rightarrow> 'a list \<Rightarrow> 'a list" where
  "insert_sorted cmp x [] = [x]"
| "insert_sorted cmp x (y # ys) =
    (if cmp x y \<le> 0 then x # y # ys else y # insert_sorted cmp x ys)"

definition array_sort :: "('a \<Rightarrow> 'a \<Rightarrow> int) \<Rightarrow> 'a list \<Rightarrow> 'a list" where
  "array_sort cmp xs = foldr (insert_sorted cmp) xs []"

text \<open>
  \<^verbatim>\<open>Array.prototype.slice(start, end)\<close> for integer arguments: a negative index
  counts from the end of the array.
\<close>

definition slice :: "'a list \<Rightarrow> int \<Rightarrow> int \<Rightarrow> 'a list" where
  "slice xs start end' =
    (let len = int (length xs);
         k = (if start < 0 then max (len + start) 0 else min start len);
         final = (if end' < 0 then max (len + end') 0 else min end' len)
     in take (nat (final - k)) (drop (nat k) xs))"

text \<open>\<^verbatim>\<open>Math.ceil(a / b)\<close> for a count \<open>a\<close> and an integer \<open>b\<close>.\<close>

definition Math_ceil_div :: "int \<Rightarrow> int \<Rightarrow> jsnumber" where
  "Math_ceil_div a b =
    (if b = 0 then (if a = 0 then NaN else Infinity)
     else Finite \<lceil>(of_int a :: rat) / of_int b\<rceil>)"

text \<open>
  \<^verbatim>\<open>filterEmployees\<close>. The properties of the parameter object are optional; a
  missing one takes its default, and a search text or department that is missing or
  empty (falsy) is skipped.
\<close>

definition filterEmployees ::
  "Host \<Rightarrow> State \<Rightarrow> int option \<Rightarrow> int option \<Rightarrow> string option \<Rightarrow> SortOrder option
     \<Rightarrow> string option \<Rightarrow> string option \<Rightarrow> EmployeesPage" where
  "filterEmployees host s page_opt page_size_opt sort_by_opt order_opt search department =
    (let page = (case page_opt of None \<Rightarrow> 1 | Some p \<Rightarrow> p);
         page_size = (case page_size_opt of None \<Rightarrow> 20 | Some n \<Rightarrow> n);
         sort_by = (case sort_by_opt of None \<Rightarrow> ''employee_id'' | Some k \<Rightarrow> k);
         order = (case order_opt of None \<Rightarrow> Asc | Some ord \<Rightarrow> ord);
         filtered0 = MOCK_EMPLOYEES s;
         filtered1 =
           (case search of
             None \<Rightarrow> filtered0
           | Some q \<Rightarrow>
               if q = [] then filtered0
               else
                 let searchLower = toLowerCase host q in
                 filter (\<lambda>emp. includes' (toLowerCase host (name emp)) searchLower
                                \<or> includes' (toLowerCase host (employee_id emp)) searchLower)
                   filtered0);
         filtered2 =
           (case department of
             None \<Rightarrow> filtered1
           | Some dept \<Rightarrow>
               if dept = [] then filtered1
               else filter (\<lambda>emp. department_name emp = Some dept) filtered1);
         sorted_list = array_sort (compareEmployees host sort_by order) filtered2;
         total = int (length sorted_list);
         total_pages = Math_ceil_div total page_size;
         start = (page - 1) * page_size;
         end' = start + page_size
     in \<lparr>employees = slice sorted_list start end', total = total, page = page,
         page_size = page_size, total_pages = total_pages\<rparr>)"

section \<open>The listing as the specification words it\<close>

text \<open>
  A record passes the filters when the search text, if one is given, occurs in its name
  or in its employee identifier, all three lower-cased, and its department name is
  equal to the department, if one is given.
\<close>

definition listing_matches :: "Host \<Rightarrow> string option \<Rightarrow> string option \<Rightarrow> Employee \<Rightarrow> bool" where
  "listing_matches host search department e =
    ((case search of
        None \<Rightarrow> True
      | Some q \<Rightarrow>
          sublist (toLowerCase host q) (toLowerCase host (name e))
            \<or> sublist (toLowerCase host q) (toLowerCase host (employee_id e)))
     \<and> (case department of
          None \<Rightarrow> True
        | Some dept \<Rightarrow> department_name e = Some dept))"

text \<open>
  Two records stand in the requested order of the sort field: strings by the host's
  collation, numbers by size, ascending or descending.
\<close>

definition in_requested_order :: "Host \<Rightarrow> string \<Rightarrow> SortOrder \<Rightarrow> Employee \<Rightarrow> Employee \<Rightarrow> bool" where
  "in_requested_order host sort_by order a b =
    (case (employee_prop a sort_by, employee_prop b sort_by) of
      (Some (VString x), Some (VString y)) \<Rightarrow>
        (case order of Asc \<Rightarrow> localeCompare host x y \<le> 0 | Desc \<Rightarrow> localeCompare host y x \<le> 0)
    | (Some (VNumber x), Some (VNumber y)) \<Rightarrow>
        (case order of Asc \<Rightarrow> x \<le> y | Desc \<Rightarrow> y \<le> x)
    | _ \<Rightarrow> True)"

section \<open>The tenure as the specification words it\<close>


section \<open>Reading an identifier back\<close>

text \<open>The number a decimal numeral denotes, for the identifiers of the generator.\<close>

definition nat_of_decimal :: "string \<Rightarrow> nat" where
  "nat_of_decimal s = foldl (\<lambda>acc c. 10 * acc + (of_char c - 48)) 0 s"


section \<open>Invariants of the job registry\<close>

text \<open>
  The status graph of the specification: a job moves
  \<open>Pending \<rightarrow> Processing \<rightarrow> {Completed, Failed}\<close>. \<open>lifecycle\<close> is one
  move or none, \<open>lifecycle_reach\<close> any number of moves.
\<close>

definition lifecycle :: "JobStatus \<Rightarrow> JobStatus \<Rightarrow> bool" where
  "lifecycle a b = (a = b \<or> (a = Pending \<and> b = Processing)
     \<or> (a = Processing \<and> (b = Completed \<or> b = Failed)))"

definition lifecycle_reach :: "JobStatus \<Rightarrow> JobStatus \<Rightarrow> bool" where
  "lifecycle_reach a b = (a = b \<or> (a = Pending \<and> b \<noteq> Pending)
     \<or> (a = Processing \<and> (b = Completed \<or> b = Failed)))"

text \<open>
  What relates the closure of one \<^verbatim>\<open>simulateJobProgress\<close> call to its job:
  before the first step the job is pending with no row processed; while a step timer is
  armed the job is processing and the interval's counter lies between the job's
  \<open>processed_rows\<close> and the step's ceiling; with no timer armed the job is
  completed.
\<close>

definition sim_ok :: "Simulation \<Rightarrow> MockJob \<Rightarrow> bool" where
  "sim_ok c j =
    (if currentStep c = 0 then
       status j = Pending \<and> processed_rows j = 0 \<and> progressInterval c = None \<and> timeout_pending c
     else if timeout_pending c then
       currentStep c \<le> length steps \<and> status j = Processing \<and>
       (case progressInterval c of
         None \<Rightarrow> False
       | Some iv \<Rightarrow>
           endRows iv = of_int (rows (steps ! (currentStep c - 1))) \<and> 0 \<le> rowsPerUpdate iv \<and>
           of_int (processed_rows j) \<le> currentRows iv \<and> currentRows iv \<le> endRows iv)
     else status j = Completed \<and> processed_rows j = total_rows \<and> progressInterval c = None)"

text \<open>A job without a simulation is one of the demo jobs installed at module load.\<close>

definition demo_ok :: "string \<Rightarrow> MockJob \<Rightarrow> bool" where
  "demo_ok jid j =
    ((status j = Completed \<and> processed_rows j = 508)
     \<or> (jid = ''demo-failed-job-001'' \<and> status j = Failed \<and> processed_rows j = 150))"

definition inv :: "State \<Rightarrow> bool" where
  "inv s =
    (distinct (map sim_job_id (simulations s)) \<and>
     (\<forall>c \<in> set (simulations s). \<exists>j. MOCK_JOBS s (sim_job_id c) = Some j \<and> sim_ok c j) \<and>
     (\<forall>jid j. MOCK_JOBS s jid = Some j \<longrightarrow> jid \<notin> sim_job_id ` set (simulations s)
        \<longrightarrow> demo_ok jid j) \<and>
     (\<exists>j. MOCK_JOBS s ''demo-failed-job-001'' = Some j \<and> status j = Failed))"

text \<open>
  One event never loses a job, never lowers \<open>processed_rows\<close>, moves the status
  along the status graph, and creates jobs pending with no row processed.
\<close>

definition advances :: "State \<Rightarrow> State \<Rightarrow> bool" where
  "advances s s' =
    ((\<forall>jid j. MOCK_JOBS s jid = Some j \<longrightarrow>
        (\<exists>j'. MOCK_JOBS s' jid = Some j' \<and> processed_rows j \<le> processed_rows j'
           \<and> lifecycle (status j) (status j'))) \<and>
     (\<forall>jid j'. MOCK_JOBS s jid = None \<longrightarrow> MOCK_JOBS s' jid = Some j'
        \<longrightarrow> status j' = Pending \<and> processed_rows j' = 0))"

section \<open>Concrete inputs\<close>

text \<open>A host, the draws of the generator and an upload request, to run the model on.\<close>

text \<open>
  A host in the UTC time zone whose strings are ASCII: dates by the proleptic Gregorian
  calendar (days counted from 1970-01-01), ISO strings for the years 0 to 9999, strings
  collated by their code units and lower-cased letter by letter.
\<close>

definition days_from_civil :: "int \<Rightarrow> int \<Rightarrow> int \<Rightarrow> int" where
  "days_from_civil y m d =
    (let y' = (if m \<le> 2 then y - 1 else y);
         era = y' div 400;
         yoe = y' - era * 400;
         doy = (153 * (if m > 2 then m - 3 else m + 9) + 2) div 5 + d - 1;
         doe = yoe * 365 + yoe div 4 - yoe div 100 + doy
     in era * 146097 + doe - 719468)"

definition civil_from_days :: "int \<Rightarrow> int \<times> int \<times> int" where
  "civil_from_days z =
    (let z' = z + 719468;
         era = z' div 146097;
         doe = z' - era * 146097;
         yoe = (doe - doe div 1460 + doe div 36524 - doe div 146096) div 365;
         doy = doe - (365 * yoe + yoe div 4 - yoe div 100);
         mp = (5 * doy + 2) div 153;
         d = doy - (153 * mp + 2) div 5 + 1;
         m = (if mp < 10 then mp + 3 else mp - 9)
     in (yoe + era * 400 + (if m \<le> 2 then 1 else 0), m, d))"

definition utc_mkDate :: "int \<Rightarrow> int \<Rightarrow> int \<Rightarrow> int" where
  "utc_mkDate y monthIndex d = days_from_civil y (monthIndex + 1) d * 86400000"

definition pad_number :: "nat \<Rightarrow> int \<Rightarrow> string" where
  "pad_number w n = padStart w (CHR ''0'') (decimal (nat n))"

definition utc_toISOString :: "int \<Rightarrow> string" where
  "utc_toISOString t =
    (let (y, m, d) = civil_from_days (t div 86400000);
         ms = t mod 86400000
     in pad_number 4 y @ ''-'' @ pad_number 2 m @ ''-'' @ pad_number 2 d @ ''T''
        @ pad_number 2 (ms div 3600000) @ '':'' @ pad_number 2 (ms mod 3600000 div 60000)
        @ '':'' @ pad_number 2 (ms mod 60000 div 1000) @ ''.'' @ pad_number 3 (ms mod 1000)
        @ ''Z'')"

definition lower_char :: "char \<Rightarrow> char" where
  "lower_char c =
    (if (65 :: nat) \<le> of_char c \<and> of_char c \<le> (90 :: nat)
     then char_of (of_char c + (32 :: nat)) else c)"

definition ascii_toLowerCase :: "string \<Rightarrow> string" where
  "ascii_toLowerCase s = map lower_char s"

definition code_unit_compare :: "string \<Rightarrow> string \<Rightarrow> int" where
  "code_unit_compare a b = (if a < b then - 1 else if a = b then 0 else 1)"

definition example_host :: Host where
  "example_host =
    \<lparr>mkDate = utc_mkDate, toISOString = utc_toISOString, localeCompare = code_unit_compare,
     toLowerCase = ascii_toLowerCase\<rparr>"

text \<open>
  Draws of the generator with the clock at 2025-11-16T14:32:15Z, and draws with the
  clock at noon of 2024-12-31.
\<close>

definition example_draws :: "nat \<Rightarrow> Draw" where
  "example_draws i =
    \<lparr>randomUUID = ''uuid-'' @ decimal i, today = 1763303535000,
     floor_random_65000 = (7919 * int i + 7995) mod 65000,
     now_iso = ''2025-11-16T14:32:15.000Z''\<rparr>"


definition example_upload :: "string \<Rightarrow> event" where
  "example_upload uuid =
    Upload (FormData (Some (EntryFile \<lparr>file_name = ''input.xlsx'', size_bytes = 245760\<rparr>)))
      uuid ''2025-11-16T14:32:15.000Z''"

definition example_initial :: State where
  "example_initial = initial example_host example_draws (\<lambda>k. 1763303535000)"

section \<open>Properties of the job registry\<close>

subsection \<open>One timer callback\<close>

lemma steps_rows_le: "k < length steps \<Longrightarrow> rows (steps ! k) \<le> 500"
  by (auto simp: steps_def less_Suc_eq numeral_eq_Suc nth_Cons')

lemma processStep_ok:
  assumes "sim_ok c j" "timeout_pending c" "jobs (sim_job_id c) = Some j"
  shows "case processStep now (c\<lparr>progressInterval := None, timeout_pending := False\<rparr>) jobs of
           (c', jobs') \<Rightarrow>
             (case jobs' (sim_job_id c) of
               None \<Rightarrow> False
             | Some j' \<Rightarrow>
                 jobs' = jobs(sim_job_id c \<mapsto> j') \<and> sim_job_id c' = sim_job_id c \<and> sim_ok c' j'
                 \<and> processed_rows j \<le> processed_rows j' \<and> lifecycle (status j) (status j')
                 \<and> processed_rows j' \<le> 508)"
proof -
  have len: "length steps = 5" by (simp add: steps_def)
  from assms have "currentStep c \<le> 5"
    by (auto simp: sim_ok_def len split: if_splits)
  then consider "currentStep c = 0" | "currentStep c = 1" | "currentStep c = 2"
    | "currentStep c = 3" | "currentStep c = 4" | "currentStep c = 5"
    by linarith
  then show ?thesis
  proof cases
    case 1
    with assms show ?thesis
      by (auto simp: processStep_def sim_ok_def lifecycle_def steps_def updateInterval_def Let_def
          split: option.splits)
  next
    case 2
    with assms show ?thesis
      by (auto simp: processStep_def sim_ok_def lifecycle_def steps_def updateInterval_def Let_def
          split: option.splits)
  next
    case 3
    with assms show ?thesis
      by (auto simp: processStep_def sim_ok_def lifecycle_def steps_def updateInterval_def Let_def
          split: option.splits)
  next
    case 4
    with assms show ?thesis
      by (auto simp: processStep_def sim_ok_def lifecycle_def steps_def updateInterval_def Let_def
          split: option.splits)
  next
    case 5
    with assms show ?thesis
      by (auto simp: processStep_def sim_ok_def lifecycle_def steps_def updateInterval_def Let_def
          split: option.splits)
  next
    case 6
    with assms show ?thesis
      by (auto simp: processStep_def sim_ok_def lifecycle_def steps_def total_rows_def Let_def
          split: option.splits)
  qed
qed

lemma progressTick_ok:
  assumes "sim_ok c j" "progressInterval c = Some iv" "jobs (sim_job_id c) = Some j"
  shows "case progressTick iv c jobs of
           (c', jobs') \<Rightarrow>
             (case jobs' (sim_job_id c) of
               None \<Rightarrow> False
             | Some j' \<Rightarrow>
                 jobs' = jobs(sim_job_id c \<mapsto> j') \<and> sim_job_id c' = sim_job_id c \<and> sim_ok c' j'
                 \<and> processed_rows j \<le> processed_rows j' \<and> lifecycle (status j) (status j')
                 \<and> processed_rows j' \<le> 508)"
proof -
  from assms have cs: "currentStep c \<noteq> 0" "timeout_pending c" "currentStep c \<le> length steps"
    and st: "status j = Processing"
    and e: "endRows iv = of_int (rows (steps ! (currentStep c - 1)))"
    and r: "0 \<le> rowsPerUpdate iv"
    and p: "of_int (processed_rows j) \<le> currentRows iv"
    and q: "currentRows iv \<le> endRows iv"
    by (auto simp: sim_ok_def split: if_splits)
  define cur where "cur = min (currentRows iv + rowsPerUpdate iv) (endRows iv)"
  have c1: "currentRows iv \<le> cur" using r q by (simp add: cur_def)
  have c2: "cur \<le> endRows iv" by (simp add: cur_def)
  have "rows (steps ! (currentStep c - 1)) \<le> 500"
    using cs by (intro steps_rows_le) arith
  then have c3: "\<lfloor>cur\<rfloor> \<le> 500"
    using c2 e by (simp add: floor_le_iff) 
  have c4: "processed_rows j \<le> \<lfloor>cur\<rfloor>"
    using p c1 by (simp add: le_floor_iff)
  have c5: "of_int \<lfloor>cur\<rfloor> \<le> cur" by simp
  have res: "progressTick iv c jobs =
      (c\<lparr>progressInterval := Some (iv\<lparr>currentRows := cur\<rparr>)\<rparr>,
       jobs(sim_job_id c \<mapsto> j\<lparr>processed_rows := \<lfloor>cur\<rfloor>\<rparr>))"
    using assms(3) by (simp add: progressTick_def cur_def Let_def)
  have ok: "sim_ok (c\<lparr>progressInterval := Some (iv\<lparr>currentRows := cur\<rparr>)\<rparr>)
      (j\<lparr>processed_rows := \<lfloor>cur\<rfloor>\<rparr>)"
    unfolding sim_ok_def using cs st e r c2 c5 by simp
  show ?thesis
    unfolding res using ok c3 c4 by (simp add: lifecycle_def)
qed

lemma sim_ok_bound: "sim_ok c j \<Longrightarrow> processed_rows j \<le> 508"
proof -
  assume a: "sim_ok c j"
  show ?thesis
  proof (cases "currentStep c \<noteq> 0 \<and> timeout_pending c")
    case True
    with a obtain iv where iv: "progressInterval c = Some iv"
      "endRows iv = of_int (rows (steps ! (currentStep c - 1)))"
      "of_int (processed_rows j) \<le> currentRows iv" "currentRows iv \<le> endRows iv"
      and l: "currentStep c \<le> length steps"
      by (auto simp: sim_ok_def split: option.splits)
    have "rows (steps ! (currentStep c - 1)) \<le> 500"
      using True l by (intro steps_rows_le) arith
    moreover have "(of_int (processed_rows j) :: rat) \<le> of_int (rows (steps ! (currentStep c - 1)))"
      using iv by simp
    ultimately show ?thesis by simp
  next
    case False
    with a show ?thesis by (auto simp: sim_ok_def total_rows_def split: if_splits)
  qed
qed

lemma inv_bound: "inv s \<Longrightarrow> MOCK_JOBS s jid = Some j \<Longrightarrow> processed_rows j \<le> 508"
proof (cases "jid \<in> sim_job_id ` set (simulations s)")
  case True
  assume a: "inv s" "MOCK_JOBS s jid = Some j"
  from True obtain c where c: "c \<in> set (simulations s)" "jid = sim_job_id c" by auto
  with a have "sim_ok c j" by (auto simp: inv_def)
  then show ?thesis by (rule sim_ok_bound)
next
  case False
  assume a: "inv s" "MOCK_JOBS s jid = Some j"
  with False have "demo_ok jid j" by (simp add: inv_def)
  then show ?thesis by (auto simp: demo_ok_def)
qed

lemma inv_update:
  assumes "inv s" "k < length (simulations s)"
    and "sim_job_id c' = sim_job_id (simulations s ! k)" "sim_ok c' j'"
  shows "inv (s\<lparr>MOCK_JOBS := (MOCK_JOBS s)(sim_job_id (simulations s ! k) \<mapsto> j'),
                 simulations := (simulations s)[k := c']\<rparr>)"
proof -
  let ?xs = "simulations s"
  have d: "distinct (map sim_job_id ?xs)" using assms(1) by (simp add: inv_def)
  have ids: "map sim_job_id (?xs[k := c']) = map sim_job_id ?xs"
    using assms(2,3) by (simp add: map_update list_update_same_conv)
  have idx: "\<exists>i. i < length ?xs \<and> i \<noteq> k \<and> ?xs ! i = c"
    if "c \<in> set (?xs[k := c'])" "c \<noteq> c'" for c
  proof -
    from that(1) obtain i where i: "i < length (?xs[k := c'])" "(?xs[k := c']) ! i = c"
      unfolding in_set_conv_nth by blast
    with that(2) have "i \<noteq> k" by auto
    with i show ?thesis by auto
  qed
  have other: "sim_job_id c \<noteq> sim_job_id (?xs ! k)" if "c \<in> set (?xs[k := c'])" "c \<noteq> c'" for c
  proof -
    from idx [OF that] obtain i where i: "i < length ?xs" "i \<noteq> k" "?xs ! i = c" by blast
    have "(map sim_job_id ?xs ! i = map sim_job_id ?xs ! k) = (i = k)"
      using d i(1) assms(2) by (intro nth_eq_iff_index_eq) simp_all
    with i assms(2) show ?thesis by simp
  qed
  have inset: "c \<in> set ?xs" if "c \<in> set (?xs[k := c'])" "c \<noteq> c'" for c
  proof -
    from idx [OF that] obtain i where i: "i < length ?xs" "?xs ! i = c" by blast
    then show ?thesis by auto
  qed
  have sets: "sim_job_id ` set (?xs[k := c']) = sim_job_id ` set ?xs"
    using arg_cong [OF ids, of set] by simp
  have "\<exists>j. ((MOCK_JOBS s)(sim_job_id (?xs ! k) \<mapsto> j')) (sim_job_id c) = Some j \<and> sim_ok c j"
    if "c \<in> set (?xs[k := c'])" for c
  proof (cases "c = c'")
    case True
    then show ?thesis using assms(3,4) by simp
  next
    case False
    then show ?thesis
      using other [OF that False] inset [OF that False] assms(1) by (simp add: inv_def)
  qed
  moreover have "demo_ok jid j"
    if "((MOCK_JOBS s)(sim_job_id (?xs ! k) \<mapsto> j')) jid = Some j"
       "jid \<notin> sim_job_id ` set (?xs[k := c'])" for jid j
  proof -
    have "sim_job_id (?xs ! k) \<in> sim_job_id ` set ?xs" using assms(2) by simp
    with that(2) sets have "jid \<noteq> sim_job_id (?xs ! k)" by auto
    with that sets assms(1) show ?thesis by (simp add: inv_def)
  qed
  moreover have "\<exists>j. ((MOCK_JOBS s)(sim_job_id (?xs ! k) \<mapsto> j')) ''demo-failed-job-001'' = Some j
      \<and> status j = Failed"
  proof -
    from assms(1) obtain jf where jf: "MOCK_JOBS s ''demo-failed-job-001'' = Some jf" "status jf = Failed"
      by (auto simp: inv_def)
    have "?xs ! k \<in> set ?xs" using assms(2) by simp
    with assms(1) obtain jk where "MOCK_JOBS s (sim_job_id (?xs ! k)) = Some jk" "sim_ok (?xs ! k) jk"
      unfolding inv_def by blast
    with jf have "sim_job_id (?xs ! k) \<noteq> ''demo-failed-job-001''"
      by (auto simp: sim_ok_def split: if_splits)
    with jf show ?thesis by simp
  qed
  ultimately show ?thesis
    using d ids by (simp add: inv_def)
qed

lemma advances_refl: "advances s s"
  by (simp add: advances_def lifecycle_def)

lemma advances_update:
  assumes "MOCK_JOBS s x = Some j" "processed_rows j \<le> processed_rows j'"
    "lifecycle (status j) (status j')"
  shows "advances s (s\<lparr>MOCK_JOBS := (MOCK_JOBS s)(x \<mapsto> j'), simulations := ys\<rparr>)"
  using assms by (auto simp: advances_def lifecycle_def)

lemma createMockJob_state:
  "snd (createMockJob fname fsize uuid now s) =
     s\<lparr>MOCK_JOBS := (MOCK_JOBS s)(uuid \<mapsto>
          \<lparr>job_id = uuid, filename = fname, file_size = fsize, status = Pending,
           current_step = ''pending'', started_at = now, completed_at = None,
           processed_rows = 0, employee_count = 0\<rparr>),
       simulations := simulations s @
          [\<lparr>sim_job_id = uuid, currentStep = 0, progressInterval = None,
            timeout_pending = True\<rparr>]\<rparr>"
  by (simp add: createMockJob_def simulateJobProgress_def)

lemma inv_create:
  assumes "inv s" "MOCK_JOBS s uuid = None"
  shows "inv (snd (createMockJob fname fsize uuid now s))"
proof -
  have nosim: "uuid \<notin> sim_job_id ` set (simulations s)"
    using assms by (auto simp: inv_def)
  have nf: "uuid \<noteq> ''demo-failed-job-001''"
    using assms by (auto simp: inv_def)
  show ?thesis
    unfolding createMockJob_state inv_def
    using assms nosim nf
    by (auto simp: inv_def sim_ok_def)
qed

lemma advances_create:
  assumes "MOCK_JOBS s uuid = None"
  shows "advances s (snd (createMockJob fname fsize uuid now s))"
  unfolding createMockJob_state using assms
  by (auto simp: advances_def lifecycle_def)

lemma upload_state:
  "snd (upload_handler s body uuid now) = s \<or>
   (\<exists>fname fsize. snd (upload_handler s body uuid now) = snd (createMockJob fname fsize uuid now s))"
  by (simp add: upload_handler_def case_prod_beta
      split: RequestBody.splits option.splits FormDataEntry.splits) blast

lemma step_effect:
  assumes "inv s" "fresh s e"
  shows "inv (step s e) \<and> advances s (step s e)"
proof (cases e)
  case (Upload body uuid now)
  with assms have f: "MOCK_JOBS s uuid = None" by simp
  from upload_state [of s body uuid now] show ?thesis
    using Upload assms(1) inv_create [OF assms(1) f] advances_create [OF f] advances_refl
    by auto
next
  case (Timeout k now)
  show ?thesis
  proof (cases "k < length (simulations s) \<and> timeout_pending (simulations s ! k)")
    case False
    then show ?thesis using Timeout assms(1) by (auto simp: advances_refl)
  next
    case True
    let ?c = "simulations s ! k"
    from True have "?c \<in> set (simulations s)" by simp
    with assms(1) obtain j where j: "MOCK_JOBS s (sim_job_id ?c) = Some j" "sim_ok ?c j"
      unfolding inv_def by blast
    have "timeout_pending ?c" using True by simp
    from processStep_ok [where c = ?c and j = j and jobs = "MOCK_JOBS s" and now = now, OF j(2) this j(1)]
    show ?thesis
      using Timeout True j assms(1)
      by (auto split: prod.splits option.splits intro!: inv_update advances_update)
  qed
next
  case (Tick k)
  show ?thesis
  proof (cases "k < length (simulations s) \<and> progressInterval (simulations s ! k) \<noteq> None")
    case False
    then show ?thesis using Tick assms(1) by (auto simp: advances_refl)
  next
    case True
    let ?c = "simulations s ! k"
    from True obtain iv where iv: "progressInterval ?c = Some iv" by auto
    from True have "?c \<in> set (simulations s)" by simp
    with assms(1) obtain j where j: "MOCK_JOBS s (sim_job_id ?c) = Some j" "sim_ok ?c j"
      unfolding inv_def by blast
    from progressTick_ok [where c = ?c and j = j and jobs = "MOCK_JOBS s" and iv = iv, OF j(2) iv j(1)]
    show ?thesis
      using Tick True j iv assms(1)
      by (auto split: prod.splits option.splits intro!: inv_update advances_update)
  qed
qed

subsection \<open>Runs\<close>

lemma inv_initial: "inv (initial host draws clock)"
  by (auto simp: inv_def initial_def initializeSampleJobs_def demo_ok_def split: if_splits)

lemma run_append: "run s (xs @ ys) = run (run s xs) ys"
  by (induction xs arbitrary: s) auto

lemma run_snoc: "run s (xs @ [e]) = step (run s xs) e"
  by (simp add: run_append)

lemma fresh_trace_append:
  "fresh_trace s (xs @ ys) = (fresh_trace s xs \<and> fresh_trace (run s xs) ys)"
  by (induction xs arbitrary: s) auto

lemma inv_run: "inv s \<Longrightarrow> fresh_trace s evs \<Longrightarrow> inv (run s evs)"
  by (induction evs arbitrary: s) (auto dest: step_effect)

lemma lifecycle_reach_trans:
  "lifecycle a b \<Longrightarrow> lifecycle_reach b c \<Longrightarrow> lifecycle_reach a c"
  by (auto simp: lifecycle_def lifecycle_reach_def)

lemma run_advances:
  "inv s \<Longrightarrow> fresh_trace s evs \<Longrightarrow> MOCK_JOBS s jid = Some j \<Longrightarrow>
   \<exists>j'. MOCK_JOBS (run s evs) jid = Some j' \<and> processed_rows j \<le> processed_rows j'
      \<and> lifecycle_reach (status j) (status j')"
proof (induction evs arbitrary: s j)
  case Nil
  then show ?case by (simp add: lifecycle_reach_def)
next
  case (Cons e evs)
  from Cons.prems have f: "fresh s e" "fresh_trace (step s e) evs" by simp_all
  from step_effect [OF Cons.prems(1) f(1)] have i: "inv (step s e)" and a: "advances s (step s e)"
    by simp_all
  from a Cons.prems(3) obtain j1 where j1: "MOCK_JOBS (step s e) jid = Some j1"
    "processed_rows j \<le> processed_rows j1" "lifecycle (status j) (status j1)"
    unfolding advances_def by blast
  from Cons.IH [OF i f(2) j1(1)] obtain j' where
    "MOCK_JOBS (run (step s e) evs) jid = Some j'" "processed_rows j1 \<le> processed_rows j'"
    "lifecycle_reach (status j1) (status j')" by blast
  with j1 show ?case by (auto intro: lifecycle_reach_trans)
qed

subsection \<open>The status snapshot\<close>

lemmas eval_simps = example_initial_def initial_def initializeSampleJobs_def example_upload_def
  upload_handler_def endsWith_def createMockJob_def simulateJobProgress_def processStep_def
  progressTick_def steps_def total_rows_def updateInterval_def getMockJobStatus_def Let_def
  MOCK_JOB_ERRORS_def status_string_def

lemma snapshot_props:
  assumes "MOCK_JOBS s jid = Some j"
  shows "\<exists>r. getMockJobStatus s jid = Some r
    \<and> map_of r ''status'' = Some (JString (status_string (status j)))
    \<and> map_of r ''processed_rows'' = Some (JNumber (processed_rows j))
    \<and> map_of r ''total_rows'' = Some (JNumber 508)
    \<and> map_of r ''error_rows'' = Some (JNumber (if status j = Completed then 8 else 0))
    \<and> map_of r ''errors'' = Some (JArray (if status j = Completed then map error_json MOCK_JOB_ERRORS else []))"
  using assms by (simp add: getMockJobStatus_def MOCK_JOB_ERRORS_def)

lemma inv_completed:
  assumes "inv s" "MOCK_JOBS s jid = Some j" "status j = Completed"
  shows "processed_rows j = 508"
proof (cases "jid \<in> sim_job_id ` set (simulations s)")
  case True
  then obtain c where c: "c \<in> set (simulations s)" "jid = sim_job_id c" by auto
  with assms(1,2) have "sim_ok c j" by (auto simp: inv_def)
  with assms(3) show ?thesis
    by (auto simp: sim_ok_def total_rows_def split: if_splits)
next
  case False
  with assms(1,2) have "demo_ok jid j" by (simp add: inv_def)
  with assms(3) show ?thesis by (auto simp: demo_ok_def)
qed

lemma tick_value:
  assumes "inv s" "k < length (simulations s)" "progressInterval (simulations s ! k) = Some iv"
  shows "\<exists>j'. MOCK_JOBS (step s (Tick k)) (sim_job_id (simulations s ! k)) = Some j'
           \<and> processed_rows j' = \<lfloor>min (currentRows iv + rowsPerUpdate iv) (endRows iv)\<rfloor>"
proof -
  let ?c = "simulations s ! k"
  from assms(2) have "?c \<in> set (simulations s)" by simp
  with assms(1) obtain j where j: "MOCK_JOBS s (sim_job_id ?c) = Some j"
    unfolding inv_def by blast
  with assms(2,3) show ?thesis
    by (simp add: progressTick_def Let_def)
qed

lemma status_string_completed: "status_string st = ''completed'' \<longleftrightarrow> st = Completed"
  by (cases st) (simp_all add: status_string_def)

text \<open>
  Claim C1. Across every event (an upload, a step timer, a periodic update) that follows
  any run from the loaded module, the \<open>processed_rows\<close> a status request reports for a
  job does not decrease and is at most \<open>total_rows\<close>, which is 508. A periodic
  update sets it to the floor of the minimum of the advanced counter and the ceiling of
  the step, a completed job reports exactly \<open>total_rows\<close>, and the ceilings of
  the five steps are 0, 100, 300, 450, 500, in non-decreasing order.
\<close>

theorem processed_rows_monotone_bounded:
  assumes "fresh_trace (initial host draws clock) (evs @ [e])"
    and "getMockJobStatus (run (initial host draws clock) evs) jid = Some r"
  shows "\<exists>r' n n'. getMockJobStatus (run (initial host draws clock) (evs @ [e])) jid = Some r'
    \<and> map_of r ''processed_rows'' = Some (JNumber n)
    \<and> map_of r' ''processed_rows'' = Some (JNumber n')
    \<and> map_of r' ''total_rows'' = Some (JNumber total_rows)
    \<and> n \<le> n' \<and> n' \<le> total_rows
    \<and> (map_of r' ''status'' = Some (JString ''completed'') \<longrightarrow> n' = total_rows)
    \<and> (\<forall>k iv. e = Tick k \<longrightarrow> k < length (simulations (run (initial host draws clock) evs)) \<longrightarrow>
          sim_job_id (simulations (run (initial host draws clock) evs) ! k) = jid \<longrightarrow>
          progressInterval (simulations (run (initial host draws clock) evs) ! k) = Some iv \<longrightarrow>
          n' = \<lfloor>min (currentRows iv + rowsPerUpdate iv) (endRows iv)\<rfloor>)
    \<and> map rows steps = [0, 100, 300, 450, 500] \<and> sorted (map rows steps)"
proof -
  let ?s = "run (initial host draws clock) evs"
  from assms(1) have f: "fresh_trace (initial host draws clock) evs" "fresh ?s e"
    by (simp_all add: fresh_trace_append)
  have i: "inv ?s" by (rule inv_run [OF inv_initial f(1)])
  from assms(2) obtain j where j: "MOCK_JOBS ?s jid = Some j"
    by (cases "MOCK_JOBS ?s jid") (auto simp: getMockJobStatus_def)
  from step_effect [OF i f(2)] have i': "inv (step ?s e)" and a: "advances ?s (step ?s e)"
    by simp_all
  from a j obtain j' where j': "MOCK_JOBS (step ?s e) jid = Some j'"
    "processed_rows j \<le> processed_rows j'" unfolding advances_def by blast
  have b: "processed_rows j' \<le> 508" by (rule inv_bound [OF i' j'(1)])
  have c: "status j' = Completed \<longrightarrow> processed_rows j' = 508"
    using inv_completed [OF i' j'(1)] by blast
  have t: "processed_rows j' = \<lfloor>min (currentRows iv + rowsPerUpdate iv) (endRows iv)\<rfloor>"
    if "e = Tick k" "k < length (simulations ?s)" "sim_job_id (simulations ?s ! k) = jid"
      "progressInterval (simulations ?s ! k) = Some iv" for k iv
    using tick_value [OF i that(2,4)] that(1,3) j'(1) by auto
  from snapshot_props [OF j] assms(2) have r: "map_of r ''processed_rows'' = Some (JNumber (processed_rows j))"
    by auto
  from snapshot_props [OF j'(1)] obtain r' where r': "getMockJobStatus (step ?s e) jid = Some r'"
    "map_of r' ''processed_rows'' = Some (JNumber (processed_rows j'))"
    "map_of r' ''total_rows'' = Some (JNumber 508)"
    "map_of r' ''status'' = Some (JString (status_string (status j')))" by blast
  have st: "map rows steps = [0, 100, 300, 450, 500]" by (simp add: steps_def)
  show ?thesis
    unfolding run_snoc
    using r r' j'(2) b c t st
    by (intro exI [of _ r'] exI [of _ "processed_rows j"] exI [of _ "processed_rows j'"])
       (simp add: total_rows_def status_string_completed)
qed

theorem processed_rows_monotone_bounded_witness:
  "fresh_trace example_initial
     ([example_upload ''job-1'', Timeout 0 ''t1'', Timeout 0 ''t2''] @ [Tick 0])
   \<and> map_of (the (getMockJobStatus (run example_initial
        [example_upload ''job-1'', Timeout 0 ''t1'', Timeout 0 ''t2'']) ''job-1'')) ''processed_rows''
       = Some (JNumber 0)
   \<and> map_of (the (getMockJobStatus (run example_initial
        ([example_upload ''job-1'', Timeout 0 ''t1'', Timeout 0 ''t2''] @ [Tick 0])) ''job-1'')) ''processed_rows''
       = Some (JNumber 10)
   \<and> map_of (the (getMockJobStatus (run example_initial
        ([example_upload ''job-1'', Timeout 0 ''t1'', Timeout 0 ''t2''] @ [Tick 0])) ''job-1'')) ''total_rows''
       = Some (JNumber 508)"
proof -
  have f: "fresh_trace (initial example_host example_draws (\<lambda>k. 1763303535000))
     ([example_upload ''job-1'', Timeout 0 ''t1'', Timeout 0 ''t2''] @ [Tick 0])"
    by (simp add: eval_simps)
  have g: "getMockJobStatus (run (initial example_host example_draws (\<lambda>k. 1763303535000))
        [example_upload ''job-1'', Timeout 0 ''t1'', Timeout 0 ''t2'']) ''job-1'' =
      Some (the (getMockJobStatus (run (initial example_host example_draws (\<lambda>k. 1763303535000))
        [example_upload ''job-1'', Timeout 0 ''t1'', Timeout 0 ''t2'']) ''job-1''))"
    by (simp add: eval_simps)
  from processed_rows_monotone_bounded [OF f g] f show ?thesis
    by (simp add: eval_simps)
qed

lemma first_step_processing:
  assumes "inv s" "k < length (simulations s)" "currentStep (simulations s ! k) = 0"
  shows "\<exists>j'. MOCK_JOBS (step s (Timeout k now)) (sim_job_id (simulations s ! k)) = Some j'
           \<and> status j' = Processing"
proof -
  let ?c = "simulations s ! k"
  from assms(2) have "?c \<in> set (simulations s)" by simp
  with assms(1) obtain j where j: "MOCK_JOBS s (sim_job_id ?c) = Some j" "sim_ok ?c j"
    unfolding inv_def by blast
  with assms(3) have "timeout_pending ?c" by (simp add: sim_ok_def)
  with assms(2,3) j(1) show ?thesis
    by (simp add: processStep_def steps_def Let_def)
qed

text \<open>
  Claim C2. Along every run from the loaded module with fresh identifiers, one event
  leaves the status of a job as it is or moves it from pending to processing or from
  processing to a terminal status; a terminal status never changes again and a
  processing job never returns to pending; a job that appears is pending; and the first
  step timer of a simulation sets its job to processing.
\<close>

theorem status_lifecycle:
  assumes "fresh_trace (initial host draws clock) (evs @ e # evs')"
  shows "(\<forall>jid j. MOCK_JOBS (run (initial host draws clock) evs) jid = Some j \<longrightarrow>
            (\<exists>j' j''. MOCK_JOBS (run (initial host draws clock) (evs @ [e])) jid = Some j'
               \<and> MOCK_JOBS (run (initial host draws clock) (evs @ e # evs')) jid = Some j''
               \<and> (status j' = status j \<or> (status j = Pending \<and> status j' = Processing)
                    \<or> (status j = Processing \<and> (status j' = Completed \<or> status j' = Failed)))
               \<and> (status j' = Completed \<or> status j' = Failed \<longrightarrow> status j'' = status j')
               \<and> (status j' = Processing \<longrightarrow> status j'' \<noteq> Pending)))
       \<and> (\<forall>jid j'. MOCK_JOBS (run (initial host draws clock) evs) jid = None \<longrightarrow>
            MOCK_JOBS (run (initial host draws clock) (evs @ [e])) jid = Some j' \<longrightarrow>
            status j' = Pending)
       \<and> (\<forall>k now. e = Timeout k now \<longrightarrow> k < length (simulations (run (initial host draws clock) evs)) \<longrightarrow>
            currentStep (simulations (run (initial host draws clock) evs) ! k) = 0 \<longrightarrow>
            (\<exists>j'. MOCK_JOBS (run (initial host draws clock) (evs @ [e]))
                     (sim_job_id (simulations (run (initial host draws clock) evs) ! k)) = Some j'
                 \<and> status j' = Processing))"
proof -
  let ?s = "run (initial host draws clock) evs"
  have split: "evs @ e # evs' = (evs @ [e]) @ evs'" by simp
  from assms have f: "fresh_trace (initial host draws clock) evs" "fresh ?s e"
    "fresh_trace (step ?s e) evs'"
    by (simp_all add: fresh_trace_append)
  have i: "inv ?s" by (rule inv_run [OF inv_initial f(1)])
  from step_effect [OF i f(2)] have i': "inv (step ?s e)" and a: "advances ?s (step ?s e)"
    by simp_all
  have r2: "run (initial host draws clock) (evs @ e # evs') = run (step ?s e) evs'"
    by (simp add: run_append)
  have A: "\<exists>j' j''. MOCK_JOBS (step ?s e) jid = Some j'
               \<and> MOCK_JOBS (run (step ?s e) evs') jid = Some j''
               \<and> (status j' = status j \<or> (status j = Pending \<and> status j' = Processing)
                    \<or> (status j = Processing \<and> (status j' = Completed \<or> status j' = Failed)))
               \<and> (status j' = Completed \<or> status j' = Failed \<longrightarrow> status j'' = status j')
               \<and> (status j' = Processing \<longrightarrow> status j'' \<noteq> Pending)"
    if "MOCK_JOBS ?s jid = Some j" for jid j
  proof -
    from a that obtain j' where j': "MOCK_JOBS (step ?s e) jid = Some j'"
      "lifecycle (status j) (status j')" unfolding advances_def by blast
    from run_advances [OF i' f(3) j'(1)] obtain j'' where
      j'': "MOCK_JOBS (run (step ?s e) evs') jid = Some j''" "lifecycle_reach (status j') (status j'')"
      by blast
    from j' j'' show ?thesis
      by (auto simp: lifecycle_def lifecycle_reach_def)
  qed
  have B: "status j' = Pending"
    if "MOCK_JOBS ?s jid = None" "MOCK_JOBS (step ?s e) jid = Some j'" for jid j'
    using a that unfolding advances_def by blast
  have C: "\<exists>j'. MOCK_JOBS (step ?s e) (sim_job_id (simulations ?s ! k)) = Some j' \<and> status j' = Processing"
    if "e = Timeout k now" "k < length (simulations ?s)" "currentStep (simulations ?s ! k) = 0" for k now
    using first_step_processing [OF i that(2,3)] that(1) by simp
  show ?thesis
    unfolding r2 run_snoc using A B C by blast
qed

theorem status_lifecycle_witness:
  "fresh_trace example_initial
     ([example_upload ''job-1''] @ Timeout 0 ''t1'' #
        [Timeout 0 ''t2'', Timeout 0 ''t3'', Timeout 0 ''t4'', Timeout 0 ''t5'', Timeout 0 ''t6''])
   \<and> map_option status (MOCK_JOBS example_initial ''job-1'') = None
   \<and> map_option status (MOCK_JOBS (run example_initial [example_upload ''job-1'']) ''job-1'')
       = Some Pending
   \<and> map_option status
        (MOCK_JOBS (run example_initial ([example_upload ''job-1''] @ [Timeout 0 ''t1''])) ''job-1'')
       = Some Processing
   \<and> map_option status
        (MOCK_JOBS (run example_initial ([example_upload ''job-1''] @ Timeout 0 ''t1'' #
           [Timeout 0 ''t2'', Timeout 0 ''t3'', Timeout 0 ''t4'', Timeout 0 ''t5'', Timeout 0 ''t6'']))
           ''job-1'')
       = Some Completed"
proof -
  have f: "fresh_trace (initial example_host example_draws (\<lambda>k. 1763303535000))
     ([example_upload ''job-1''] @ Timeout 0 ''t1'' #
        [Timeout 0 ''t2'', Timeout 0 ''t3'', Timeout 0 ''t4'', Timeout 0 ''t5'', Timeout 0 ''t6''])"
    by (simp add: eval_simps)
  from status_lifecycle [OF f] f show ?thesis
    by (simp add: eval_simps)
qed

text \<open>
  Claim C3. Along every run from the loaded module with fresh identifiers: when the
  simulation of a job has run to the end (no timer of it is armed any more), the status
  snapshot of the job says \<open>completed\<close>; and in every snapshot that says
  \<open>completed\<close>, \<open>processed_rows\<close> equals \<open>total_rows\<close> and
  \<open>error_rows\<close> is the length of the \<open>errors\<close> list, which is not empty.
\<close>

theorem completed_snapshot:
  assumes "fresh_trace (initial host draws clock) evs"
  shows "(\<forall>c \<in> set (simulations (run (initial host draws clock) evs)). \<not> timeout_pending c \<longrightarrow>
           (\<exists>r. getMockJobStatus (run (initial host draws clock) evs) (sim_job_id c) = Some r
              \<and> map_of r ''status'' = Some (JString ''completed'')))
       \<and> (\<forall>jid r. getMockJobStatus (run (initial host draws clock) evs) jid = Some r \<longrightarrow>
             map_of r ''status'' = Some (JString ''completed'') \<longrightarrow>
             (\<exists>errs. map_of r ''processed_rows'' = map_of r ''total_rows''
                \<and> map_of r ''errors'' = Some (JArray errs)
                \<and> map_of r ''error_rows'' = Some (JNumber (int (length errs)))
                \<and> 0 < length errs))"
proof -
  let ?s = "run (initial host draws clock) evs"
  have i: "inv ?s" by (rule inv_run [OF inv_initial assms(1)])
  have A: "\<exists>r. getMockJobStatus ?s (sim_job_id c) = Some r
              \<and> map_of r ''status'' = Some (JString ''completed'')"
    if "c \<in> set (simulations ?s)" "\<not> timeout_pending c" for c
  proof -
    from i that(1) obtain j where j: "MOCK_JOBS ?s (sim_job_id c) = Some j" "sim_ok c j"
      unfolding inv_def by blast
    with that(2) have d: "status j = Completed"
      by (auto simp: sim_ok_def split: if_splits)
    from snapshot_props [OF j(1)] d show ?thesis
      by (auto simp: status_string_def)
  qed
  have B: "\<exists>errs. map_of r ''processed_rows'' = map_of r ''total_rows''
                \<and> map_of r ''errors'' = Some (JArray errs)
                \<and> map_of r ''error_rows'' = Some (JNumber (int (length errs)))
                \<and> 0 < length errs"
    if "getMockJobStatus ?s jid = Some r" "map_of r ''status'' = Some (JString ''completed'')" for jid r
  proof -
    from that(1) obtain j where j: "MOCK_JOBS ?s jid = Some j"
      by (cases "MOCK_JOBS ?s jid") (auto simp: getMockJobStatus_def)
    from snapshot_props [OF j] that have "status_string (status j) = ''completed''"
      by auto
    then have c: "status j = Completed" by (simp add: status_string_completed)
    have p: "processed_rows j = 508" by (rule inv_completed [OF i j c])
    from snapshot_props [OF j] that(1) c p show ?thesis
      by (auto simp: MOCK_JOB_ERRORS_def)
  qed
  show ?thesis using A B by blast
qed

theorem completed_snapshot_witness:
  "fresh_trace example_initial
     [example_upload ''job-1'', Timeout 0 ''t1'', Timeout 0 ''t2'', Timeout 0 ''t3'',
      Timeout 0 ''t4'', Timeout 0 ''t5'', Timeout 0 ''t6'']
   \<and> \<not> timeout_pending (simulations (run example_initial
     [example_upload ''job-1'', Timeout 0 ''t1'', Timeout 0 ''t2'', Timeout 0 ''t3'',
      Timeout 0 ''t4'', Timeout 0 ''t5'', Timeout 0 ''t6'']) ! 0)
   \<and> map_of (the (getMockJobStatus (run example_initial
     [example_upload ''job-1'', Timeout 0 ''t1'', Timeout 0 ''t2'', Timeout 0 ''t3'',
      Timeout 0 ''t4'', Timeout 0 ''t5'', Timeout 0 ''t6'']) ''job-1'')) ''status''
       = Some (JString ''completed'')
   \<and> map_of (the (getMockJobStatus (run example_initial
     [example_upload ''job-1'', Timeout 0 ''t1'', Timeout 0 ''t2'', Timeout 0 ''t3'',
      Timeout 0 ''t4'', Timeout 0 ''t5'', Timeout 0 ''t6'']) ''job-1'')) ''processed_rows''
       = Some (JNumber 508)
   \<and> map_of (the (getMockJobStatus (run example_initial
     [example_upload ''job-1'', Timeout 0 ''t1'', Timeout 0 ''t2'', Timeout 0 ''t3'',
      Timeout 0 ''t4'', Timeout 0 ''t5'', Timeout 0 ''t6'']) ''job-1'')) ''error_rows''
       = Some (JNumber 8)"
proof -
  let ?evs = "[example_upload ''job-1'', Timeout 0 ''t1'', Timeout 0 ''t2'', Timeout 0 ''t3'',
      Timeout 0 ''t4'', Timeout 0 ''t5'', Timeout 0 ''t6'']"
  let ?init = "initial example_host example_draws (\<lambda>k. 1763303535000)"
  have f: "fresh_trace ?init ?evs"
    by (simp add: eval_simps)
  have t: "\<not> timeout_pending (simulations (run ?init ?evs) ! 0)"
    by (simp add: eval_simps)
  from completed_snapshot [OF f] f t show ?thesis
    by (simp add: eval_simps)
qed

text \<open>
  Claim C10. Along every run from the loaded module with fresh identifiers, the job of
  every simulation (every job made by \<open>createMockJob\<close>) has a status other than
  \<open>Failed\<close>, and a job is failed exactly when it is the demo job
  \<open>demo-failed-job-001\<close> installed at module load.
\<close>

theorem failed_only_preseeded:
  assumes "fresh_trace (initial host draws clock) evs"
  shows "(\<forall>c \<in> set (simulations (run (initial host draws clock) evs)).
            \<exists>j. MOCK_JOBS (run (initial host draws clock) evs) (sim_job_id c) = Some j
              \<and> status j \<noteq> Failed)
       \<and> (\<forall>jid j. MOCK_JOBS (run (initial host draws clock) evs) jid = Some j \<longrightarrow>
            (status j = Failed \<longleftrightarrow> jid = ''demo-failed-job-001''))"
proof -
  let ?s = "run (initial host draws clock) evs"
  have i: "inv ?s" by (rule inv_run [OF inv_initial assms(1)])
  have A: "\<exists>j. MOCK_JOBS ?s (sim_job_id c) = Some j \<and> status j \<noteq> Failed"
    if "c \<in> set (simulations ?s)" for c
  proof -
    from i that obtain j where "MOCK_JOBS ?s (sim_job_id c) = Some j" "sim_ok c j"
      unfolding inv_def by blast
    then show ?thesis by (auto simp: sim_ok_def split: if_splits)
  qed
  have B: "status j = Failed \<longleftrightarrow> jid = ''demo-failed-job-001''"
    if j: "MOCK_JOBS ?s jid = Some j" for jid j
  proof
    assume f: "status j = Failed"
    have "jid \<notin> sim_job_id ` set (simulations ?s)"
    proof
      assume "jid \<in> sim_job_id ` set (simulations ?s)"
      then obtain c where "c \<in> set (simulations ?s)" "jid = sim_job_id c" by auto
      with A [of c] j f show False by auto
    qed
    with i j have "demo_ok jid j" by (simp add: inv_def)
    with f show "jid = ''demo-failed-job-001''" by (auto simp: demo_ok_def)
  next
    assume "jid = ''demo-failed-job-001''"
    with i j show "status j = Failed" by (auto simp: inv_def)
  qed
  show ?thesis using A B by blast
qed

theorem failed_only_preseeded_witness:
  "fresh_trace example_initial [example_upload ''job-1'', Timeout 0 ''t1'']
   \<and> map_option status
        (MOCK_JOBS (run example_initial [example_upload ''job-1'', Timeout 0 ''t1'']) ''job-1'')
       = Some Processing
   \<and> map_option status
        (MOCK_JOBS (run example_initial [example_upload ''job-1'', Timeout 0 ''t1''])
           ''demo-failed-job-001'')
       = Some Failed"
proof -
  have f: "fresh_trace (initial example_host example_draws (\<lambda>k. 1763303535000))
     [example_upload ''job-1'', Timeout 0 ''t1'']"
    by (simp add: eval_simps)
  from failed_only_preseeded [OF f] f show ?thesis
    by (simp add: eval_simps)
qed

subsection \<open>The employees table under job events\<close>

lemma step_employees: "MOCK_EMPLOYEES (step s e) = MOCK_EMPLOYEES s"
proof (cases e)
  case (Upload body uuid now)
  from upload_state [of s body uuid now] show ?thesis
    unfolding Upload by (auto simp: createMockJob_state)
next
  case (Timeout k now)
  then show ?thesis by (simp add: case_prod_beta)
next
  case (Tick k)
  then show ?thesis by (simp add: case_prod_beta split: option.splits)
qed

lemma run_employees: "MOCK_EMPLOYEES (run s evs) = MOCK_EMPLOYEES s"
  by (induction evs arbitrary: s) (simp_all add: step_employees)

text \<open>
  Claim C4. Creating a job leaves \<open>MOCK_EMPLOYEES\<close> as it is, and so does every run
  of uploads and timer events; so a run in which the same request body is uploaded a
  second time ends with the employees table of the run that stops before it.
\<close>

theorem employees_untouched_by_jobs:
  "MOCK_EMPLOYEES (snd (createMockJob fname fsize uuid now s)) = MOCK_EMPLOYEES s
   \<and> MOCK_EMPLOYEES (run s evs) = MOCK_EMPLOYEES s
   \<and> MOCK_EMPLOYEES (run s (Upload body uuid1 now1 # evs1 @ Upload body uuid2 now2 # evs2))
       = MOCK_EMPLOYEES (run s (Upload body uuid1 now1 # evs1))"
  by (simp add: run_employees createMockJob_state)

theorem employees_untouched_by_jobs_witness:
  "MOCK_EMPLOYEES (run example_initial
      (example_upload ''job-1'' # [Timeout 0 ''t1'', Tick 0] @ example_upload ''job-2'' # [Timeout 1 ''t2'']))
     = MOCK_EMPLOYEES example_initial"
  using employees_untouched_by_jobs [of "''input.xlsx''" 245760 "''job-1''" "''t0''" example_initial
      "example_upload ''job-1'' # [Timeout 0 ''t1'', Tick 0] @ example_upload ''job-2'' # [Timeout 1 ''t2'']"]
  by simp

subsection \<open>The handlers\<close>

lemma endsWith_suffix: "endsWith s suf \<longleftrightarrow> suffix suf s"
proof
  assume "endsWith s suf"
  then have "s = take (length s - length suf) s @ suf"
    by (metis append_take_drop_id endsWith_def)
  then show "suffix suf s" by (metis suffixI)
next
  assume "suffix suf s"
  then obtain zs where "s = zs @ suf" by (auto simp: suffix_def)
  then show "endsWith s suf" by (simp add: endsWith_def)
qed

text \<open>
  Claim C5. The upload handler answers 200 exactly when the form field holds a file whose
  name ends in \<open>.xlsx\<close> or \<open>.xls\<close> and whose size is at most 10 * 1024 * 1024
  bytes. It then returns the drawn identifier, and the registry differs from the one
  before only at that identifier, where a pending job with no row processed stands.
  Every other answer is 400, 413 or 500 and leaves the whole state as it was.
\<close>

theorem upload_accepts_iff:
  "(fst (fst (upload_handler s body uuid now)) = 200 \<longleftrightarrow>
      (\<exists>file. body = FormData (Some (EntryFile file))
         \<and> (suffix ''.xlsx'' (file_name file) \<or> suffix ''.xls'' (file_name file))
         \<and> size_bytes file \<le> 10 * 1024 * 1024))
   \<and> (fst (fst (upload_handler s body uuid now)) = 200 \<longrightarrow>
        snd (fst (upload_handler s body uuid now)) = JObject [(''job_id'', JString uuid)]
        \<and> (\<exists>j. MOCK_JOBS (snd (upload_handler s body uuid now)) = (MOCK_JOBS s)(uuid \<mapsto> j)
              \<and> job_id j = uuid \<and> status j = Pending \<and> processed_rows j = 0))
   \<and> (fst (fst (upload_handler s body uuid now)) \<noteq> 200 \<longrightarrow>
        fst (fst (upload_handler s body uuid now)) \<in> {400, 413, 500}
        \<and> snd (upload_handler s body uuid now) = s)"
  by (auto simp: upload_handler_def endsWith_suffix createMockJob_def simulateJobProgress_def
      split: RequestBody.splits option.splits FormDataEntry.splits)

theorem upload_accepts_iff_witness:
  "fst (fst (upload_handler example_initial
      (FormData (Some (EntryFile \<lparr>file_name = ''input.xlsx'', size_bytes = 245760\<rparr>)))
      ''job-1'' ''t0'')) = 200
   \<and> suffix ''.xlsx'' ''input.xlsx''
   \<and> map_option status (MOCK_JOBS (snd (upload_handler example_initial
      (FormData (Some (EntryFile \<lparr>file_name = ''input.xlsx'', size_bytes = 245760\<rparr>)))
      ''job-1'' ''t0'')) ''job-1'') = Some Pending
   \<and> fst (fst (upload_handler example_initial
      (FormData (Some (EntryFile \<lparr>file_name = ''notes.txt'', size_bytes = 10\<rparr>)))
      ''job-1'' ''t0'')) = 400
   \<and> fst (fst (upload_handler example_initial
      (FormData (Some (EntryFile \<lparr>file_name = ''big.xls'', size_bytes = 10 * 1024 * 1024 + 1\<rparr>)))
      ''job-1'' ''t0'')) = 413
   \<and> snd (upload_handler example_initial
      (FormData (Some (EntryFile \<lparr>file_name = ''big.xls'', size_bytes = 10 * 1024 * 1024 + 1\<rparr>)))
      ''job-1'' ''t0'') = example_initial"
  using upload_accepts_iff [of example_initial
      "FormData (Some (EntryFile \<lparr>file_name = ''input.xlsx'', size_bytes = 245760\<rparr>))"
      "''job-1''" "''t0''"]
    upload_accepts_iff [of example_initial
      "FormData (Some (EntryFile \<lparr>file_name = ''big.xls'', size_bytes = 10 * 1024 * 1024 + 1\<rparr>))"
      "''job-1''" "''t0''"]
  by (simp add: upload_handler_def endsWith_def createMockJob_def simulateJobProgress_def
      suffix_to_prefix)

text \<open>
  Claim C6, with the fields the mock keeps. For every job identifier that names a job of
  the registry, the status handler answers 200 with the snapshot that
  \<open>getMockJobStatus\<close> returns, whose properties are exactly \<open>job_id\<close>,
  \<open>filename\<close>, \<open>status\<close>, \<open>current_step\<close>, \<open>total_rows\<close>,
  \<open>processed_rows\<close>, \<open>error_rows\<close>, \<open>errors\<close>, \<open>started_at\<close> and
  \<open>completed_at\<close>, holding the job's identifier, file name, status, step label,
  row counters and time stamps; the snapshot has no \<open>created_at\<close> and no
  \<open>updated_at\<close>. For an identifier that names no job, \<open>getMockJobStatus\<close>
  returns \<open>None\<close> and the handler answers 404.
\<close>

theorem status_snapshot_fields:
  "(\<forall>j. MOCK_JOBS s jid = Some j \<longrightarrow>
      (\<exists>r. getMockJobStatus s jid = Some r \<and> status_handler s jid = (200, JObject r)
         \<and> map fst r = [''job_id'', ''filename'', ''status'', ''current_step'', ''total_rows'',
              ''processed_rows'', ''error_rows'', ''errors'', ''started_at'', ''completed_at'']
         \<and> map_of r ''job_id'' = Some (JString (job_id j))
         \<and> map_of r ''filename'' = Some (JString (filename j))
         \<and> map_of r ''status'' = Some (JString (status_string (status j)))
         \<and> map_of r ''current_step'' = Some (JString (current_step j))
         \<and> map_of r ''total_rows'' = Some (JNumber total_rows)
         \<and> map_of r ''processed_rows'' = Some (JNumber (processed_rows j))
         \<and> map_of r ''error_rows''
               = Some (JNumber (if status j = Completed then int (length MOCK_JOB_ERRORS) else 0))
         \<and> map_of r ''errors''
               = Some (JArray (if status j = Completed then map error_json MOCK_JOB_ERRORS else []))
         \<and> map_of r ''started_at'' = Some (JString (started_at j))
         \<and> map_of r ''completed_at''
               = Some (case completed_at j of None \<Rightarrow> JNull | Some t \<Rightarrow> JString t)
         \<and> map_of r ''created_at'' = None \<and> map_of r ''updated_at'' = None))
   \<and> (MOCK_JOBS s jid = None \<longrightarrow>
        getMockJobStatus s jid = None \<and> status_handler s jid = (404, detail ''Job not found''))"
  by (auto simp: getMockJobStatus_def status_handler_def total_rows_def)

theorem status_snapshot_fields_witness:
  "map_option job_id (MOCK_JOBS example_initial ''demo-failed-job-001'') = Some ''demo-failed-job-001''
   \<and> fst (status_handler example_initial ''demo-failed-job-001'') = 200
   \<and> snd (status_handler example_initial ''demo-failed-job-001'')
       = JObject (the (getMockJobStatus example_initial ''demo-failed-job-001''))
   \<and> map fst (the (getMockJobStatus example_initial ''demo-failed-job-001'')) =
       [''job_id'', ''filename'', ''status'', ''current_step'', ''total_rows'',
        ''processed_rows'', ''error_rows'', ''errors'', ''started_at'', ''completed_at'']
   \<and> map_of (the (getMockJobStatus example_initial ''demo-failed-job-001'')) ''status''
       = Some (JString ''failed'')
   \<and> map_of (the (getMockJobStatus example_initial ''demo-failed-job-001'')) ''processed_rows''
       = Some (JNumber 150)
   \<and> MOCK_JOBS example_initial ''no-such-job'' = None
   \<and> status_handler example_initial ''no-such-job'' = (404, detail ''Job not found'')"
  using status_snapshot_fields [of example_initial "''demo-failed-job-001''"]
    status_snapshot_fields [of example_initial "''no-such-job''"]
  by (simp add: eval_simps status_handler_def)

text \<open>
  Claim C6 as stated, with the \<open>created_at\<close> and \<open>updated_at\<close> time stamps in the
  snapshot, fails for the demo job \<open>demo-completed-job-001\<close> of the loaded module:
  the snapshot the status handler answers with has neither property.
\<close>

theorem status_snapshot_lacks_timestamps:
  "fst (status_handler example_initial ''demo-completed-job-001'') = 200
   \<and> snd (status_handler example_initial ''demo-completed-job-001'')
       = JObject (the (getMockJobStatus example_initial ''demo-completed-job-001''))
   \<and> map fst (the (getMockJobStatus example_initial ''demo-completed-job-001'')) =
       [''job_id'', ''filename'', ''status'', ''current_step'', ''total_rows'',
        ''processed_rows'', ''error_rows'', ''errors'', ''started_at'', ''completed_at'']
   \<and> map_of (the (getMockJobStatus example_initial ''demo-completed-job-001'')) ''created_at'' = None
   \<and> map_of (the (getMockJobStatus example_initial ''demo-completed-job-001'')) ''updated_at'' = None"
  by (simp add: eval_simps status_handler_def)

section \<open>Properties of the generator\<close>

lemma generateEmployees_loop_eq:
  "generateEmployees_loop host draws n i acc =
     acc @ map (\<lambda>k. makeEmployee host (draws k) k) [i..<n]"
proof (induction host draws n i acc rule: generateEmployees_loop.induct)
  case (1 host draws n i acc)
  show ?case
  proof (cases "i < n")
    case True
    then show ?thesis
      using "1.IH" by (subst generateEmployees_loop.simps) (simp add: upt_conv_Cons)
  next
    case False
    then show ?thesis by (subst generateEmployees_loop.simps) simp
  qed
qed

lemma generateEmployees_map:
  "generateEmployees host draws n = map (\<lambda>k. makeEmployee host (draws k) k) [0..<n]"
  by (simp add: generateEmployees_def generateEmployees_loop_eq)

lemma length_generateEmployees: "length (generateEmployees host draws n) = n"
  by (simp add: generateEmployees_map)

lemma nth_generateEmployees:
  "i < n \<Longrightarrow> generateEmployees host draws n ! i = makeEmployee host (draws i) i"
  by (simp add: generateEmployees_map)

lemma digit_value: "d < 10 \<Longrightarrow> of_char (digit_char d) - 48 = d"
  by (simp add: digit_char_def)

lemma nat_of_decimal_snoc:
  "nat_of_decimal (s @ [c]) = 10 * nat_of_decimal s + (of_char c - 48)"
  by (simp add: nat_of_decimal_def)

lemma nat_of_decimal_decimal: "nat_of_decimal (decimal n) = n"
proof (induction n rule: decimal.induct)
  case (1 n)
  show ?case
  proof (cases "n < 10")
    case True
    then show ?thesis
      by (subst decimal.simps) (simp add: nat_of_decimal_def digit_value)
  next
    case False
    then show ?thesis
      using "1.IH" by (subst decimal.simps) (simp add: nat_of_decimal_snoc digit_value)
  qed
qed

lemma nat_of_decimal_zeros:
  "nat_of_decimal (replicate k (CHR ''0'') @ s) = nat_of_decimal s"
  by (induction k) (simp_all add: nat_of_decimal_def)

lemma nat_of_decimal_padStart:
  "nat_of_decimal (padStart w (CHR ''0'') (decimal n)) = n"
  by (simp add: padStart_def nat_of_decimal_zeros nat_of_decimal_decimal)

lemma employee_id_makeEmployee:
  "employee_id (makeEmployee host d i) = ''E'' @ padStart 4 (CHR ''0'') (decimal (i + 1))"
  by (simp add: makeEmployee_def Let_def)

lemma distinct_employee_ids: "distinct (map employee_id (generateEmployees host draws n))"
proof -
  have "inj_on (\<lambda>k. employee_id (makeEmployee host (draws k) k)) (set [0..<n])"
  proof (rule inj_onI)
    fix a b
    assume "employee_id (makeEmployee host (draws a) a) = employee_id (makeEmployee host (draws b) b)"
    then have "nat_of_decimal (padStart 4 (CHR ''0'') (decimal (a + 1))) =
               nat_of_decimal (padStart 4 (CHR ''0'') (decimal (b + 1)))"
      by (simp add: employee_id_makeEmployee)
    then show "a = b" by (simp add: nat_of_decimal_padStart)
  qed
  then show ?thesis
    by (simp add: generateEmployees_map distinct_map comp_def)
qed

lemma employees_of_run:
  "MOCK_EMPLOYEES (run (initial host draws clock) evs) = generateEmployees host draws 500"
  by (simp add: run_employees initial_def)

text \<open>
  Claim C9. For every count \<open>n\<close> the generator gives the record at position \<open>i\<close>
  the identifier made of \<open>E\<close> and the decimal numeral of \<open>i + 1\<close> padded with zeros
  to four digits, which reads back as \<open>i + 1\<close>; so the identifiers of the generated
  table are pairwise distinct, and so are those of \<open>MOCK_EMPLOYEES\<close> after every run
  from the loaded module.
\<close>

theorem employee_ids_distinct:
  "distinct (map employee_id (generateEmployees host draws n))
   \<and> (\<forall>i < n. employee_id (generateEmployees host draws n ! i)
                  = ''E'' @ padStart 4 (CHR ''0'') (decimal (i + 1))
              \<and> nat_of_decimal (tl (employee_id (generateEmployees host draws n ! i))) = i + 1)
   \<and> distinct (map employee_id (MOCK_EMPLOYEES (run (initial host draws clock) evs)))"
  by (simp add: distinct_employee_ids nth_generateEmployees employee_id_makeEmployee
      nat_of_decimal_padStart employees_of_run)

theorem employee_ids_distinct_witness:
  "map employee_id (generateEmployees example_host example_draws 3) = [''E0001'', ''E0002'', ''E0003'']
   \<and> distinct (map employee_id (generateEmployees example_host example_draws 3))
   \<and> nat_of_decimal (tl (employee_id (generateEmployees example_host example_draws 3 ! 2))) = 2 + 1"
proof -
  have "map employee_id (generateEmployees example_host example_draws 3) = [''E0001'', ''E0002'', ''E0003'']"
    by code_simp
  moreover from employee_ids_distinct [of example_host example_draws 3 "\<lambda>k. 0" "[]"]
  have "distinct (map employee_id (generateEmployees example_host example_draws 3))"
    and "nat_of_decimal (tl (employee_id (generateEmployees example_host example_draws 3 ! 2))) = 2 + 1"
    by (simp, elim conjE allE [of _ 2], simp)
  ultimately show ?thesis by simp
qed

lemma deptCodes_mapped:
  "\<exists>n. DEPARTMENTS (deptCodes ! (i mod length deptCodes)) = Some n"
proof -
  have "i mod 6 < 6" by simp
  then consider "i mod 6 = 0" | "i mod 6 = 1" | "i mod 6 = 2" | "i mod 6 = 3" | "i mod 6 = 4"
    | "i mod 6 = 5" by linarith
  then show ?thesis
    by cases (simp_all add: deptCodes_def DEPARTMENTS_def)
qed







section \<open>Properties of the listing\<close>

subsection \<open>Substring search, sorting and slicing\<close>

lemma includes_sublist: "includes' s sub \<longleftrightarrow> sublist sub s"
  by (induction s) (auto simp: sublist_Cons_right)

lemma set_insert_sorted: "set (insert_sorted cmp x ys) = insert x (set ys)"
  by (induction ys) auto

lemma mset_insert_sorted: "mset (insert_sorted cmp x ys) = add_mset x (mset ys)"
  by (induction ys) auto

lemma array_sort_Cons: "array_sort cmp (x # xs) = insert_sorted cmp x (array_sort cmp xs)"
  by (simp add: array_sort_def)

lemma array_sort_Nil: "array_sort cmp [] = []"
  by (simp add: array_sort_def)

lemma mset_array_sort: "mset (array_sort cmp xs) = mset xs"
  by (induction xs) (simp_all add: array_sort_Nil array_sort_Cons mset_insert_sorted)

lemma set_array_sort: "set (array_sort cmp xs) = set xs"
  by (metis mset_array_sort set_mset_mset)

lemma length_array_sort: "length (array_sort cmp xs) = length xs"
  by (metis mset_array_sort size_mset)

lemma sorted_insert_sorted:
  assumes tot: "\<And>a b. a \<in> A \<Longrightarrow> b \<in> A \<Longrightarrow> cmp a b \<le> 0 \<or> cmp b a \<le> 0"
    and tr: "\<And>a b c. a \<in> A \<Longrightarrow> b \<in> A \<Longrightarrow> c \<in> A \<Longrightarrow> cmp a b \<le> 0 \<Longrightarrow> cmp b c \<le> 0
               \<Longrightarrow> cmp a c \<le> 0"
    and x: "x \<in> A"
  shows "set ys \<subseteq> A \<Longrightarrow> sorted_wrt (\<lambda>a b. cmp a b \<le> 0) ys \<Longrightarrow>
         sorted_wrt (\<lambda>a b. cmp a b \<le> 0) (insert_sorted cmp x ys)"
proof (induction ys)
  case Nil
  then show ?case by simp
next
  case (Cons y ys)
  from Cons.prems(1) have y: "y \<in> A" and ys: "set ys \<subseteq> A" by simp_all
  from Cons.prems(2) have yb: "\<And>b. b \<in> set ys \<Longrightarrow> cmp y b \<le> 0"
    and sys: "sorted_wrt (\<lambda>a b. cmp a b \<le> 0) ys" by simp_all
  show ?case
  proof (cases "cmp x y \<le> 0")
    case True
    have "cmp x b \<le> 0" if "b \<in> set ys" for b
    proof (rule tr [OF x y _ True yb [OF that]])
      show "b \<in> A" using that ys by blast
    qed
    with True yb sys show ?thesis by simp
  next
    case False
    with tot [OF x y] have yx: "cmp y x \<le> 0" by blast
    have ih: "sorted_wrt (\<lambda>a b. cmp a b \<le> 0) (insert_sorted cmp x ys)"
      by (rule Cons.IH [OF ys sys])
    from False yx yb ih show ?thesis
      by (simp add: set_insert_sorted)
  qed
qed

lemma sorted_array_sort:
  assumes tot: "\<And>a b. a \<in> A \<Longrightarrow> b \<in> A \<Longrightarrow> cmp a b \<le> 0 \<or> cmp b a \<le> 0"
    and tr: "\<And>a b c. a \<in> A \<Longrightarrow> b \<in> A \<Longrightarrow> c \<in> A \<Longrightarrow> cmp a b \<le> 0 \<Longrightarrow> cmp b c \<le> 0
               \<Longrightarrow> cmp a c \<le> 0"
  shows "set xs \<subseteq> A \<Longrightarrow> sorted_wrt (\<lambda>a b. cmp a b \<le> 0) (array_sort cmp xs)"
proof (induction xs)
  case Nil
  then show ?case by (simp add: array_sort_Nil)
next
  case (Cons x xs)
  from Cons.prems have x: "x \<in> A" and xs: "set xs \<subseteq> A" by simp_all
  have "sorted_wrt (\<lambda>a b. cmp a b \<le> 0) (insert_sorted cmp x (array_sort cmp xs))"
  proof (rule sorted_insert_sorted [where A = A])
    show "cmp a b \<le> 0 \<or> cmp b a \<le> 0" if "a \<in> A" "b \<in> A" for a b
      using that by (rule tot)
    show "cmp a c \<le> 0" if "a \<in> A" "b \<in> A" "c \<in> A" "cmp a b \<le> 0" "cmp b c \<le> 0" for a b c
      using that by (rule tr)
    show "x \<in> A" by (rule x)
    show "set (array_sort cmp xs) \<subseteq> A" using xs by (simp add: set_array_sort)
    show "sorted_wrt (\<lambda>a b. cmp a b \<le> 0) (array_sort cmp xs)" by (rule Cons.IH [OF xs])
  qed
  then show ?case by (simp add: array_sort_Cons)
qed

lemma slice_page:
  assumes "1 \<le> p" "1 \<le> sz"
  shows "slice xs ((p - 1) * sz) ((p - 1) * sz + sz) = take (nat sz) (drop (nat ((p - 1) * sz)) xs)"
proof -
  let ?start = "(p - 1) * sz"
  have s0: "0 \<le> ?start" using assms by simp
  have e0: "\<not> ?start + sz < 0" using s0 assms by linarith
  show ?thesis
  proof (cases "?start \<le> int (length xs)")
    case True
    then have k: "min ?start (int (length xs)) = ?start" by simp
    have "take (nat (min (?start + sz) (int (length xs)) - ?start)) (drop (nat ?start) xs)
        = take (nat sz) (drop (nat ?start) xs)"
    proof (cases "?start + sz \<le> int (length xs)")
      case True
      then show ?thesis by simp
    next
      case False
      then have "min (?start + sz) (int (length xs)) = int (length xs)" by simp
      moreover have "length (drop (nat ?start) xs) = nat (int (length xs) - ?start)"
        using s0 by (simp add: nat_diff_distrib)
      moreover have "nat (int (length xs) - ?start) \<le> nat sz" using False by linarith
      ultimately show ?thesis by simp
    qed
    then show ?thesis
      using s0 e0 k by (simp add: slice_def Let_def)
  next
    case False
    then have k: "min ?start (int (length xs)) = int (length xs)" by simp
    have f: "min (?start + sz) (int (length xs)) = int (length xs)" using False assms by simp
    have "length xs \<le> nat ?start" using False by linarith
    then show ?thesis
      using s0 e0 k f by (simp add: slice_def Let_def)
  qed
qed

subsection \<open>The comparator of the listing\<close>

lemma department_name_generated:
  "e \<in> set (generateEmployees host draws n) \<Longrightarrow> department_name e \<noteq> None"
proof -
  assume "e \<in> set (generateEmployees host draws n)"
  then obtain k where "e = makeEmployee host (draws k) k"
    by (auto simp: generateEmployees_map)
  with deptCodes_mapped [of k] show ?thesis
    by (auto simp: makeEmployee_def Let_def)
qed

lemma prop_kind:
  "(\<forall>e. department_name e \<noteq> None \<longrightarrow> (\<exists>x. employee_prop e k = Some (VString x)))
   \<or> (\<forall>e. \<exists>n. employee_prop e k = Some (VNumber n))
   \<or> (\<forall>e. employee_prop e k = None)"
  by (auto simp: employee_prop_def)

lemma compare_total:
  assumes "\<forall>x y. localeCompare host x y \<le> 0 \<or> localeCompare host y x \<le> 0"
    and "department_name a \<noteq> None" "department_name b \<noteq> None"
  shows "compareEmployees host k ord a b \<le> 0 \<or> compareEmployees host k ord b a \<le> 0"
proof -
  from prop_kind [of k] consider
      (str) x y where "employee_prop a k = Some (VString x)" "employee_prop b k = Some (VString y)"
    | (num) m n where "employee_prop a k = Some (VNumber m)" "employee_prop b k = Some (VNumber n)"
    | (none) "employee_prop a k = None" "employee_prop b k = None"
    using assms(2,3) by metis
  then show ?thesis
  proof cases
    case str
    with assms(1) show ?thesis by (auto simp: compareEmployees_def)
  next
    case num
    then show ?thesis by (auto simp: compareEmployees_def)
  next
    case none
    then show ?thesis by (simp add: compareEmployees_def)
  qed
qed

lemma compare_trans:
  assumes "\<forall>x y z. localeCompare host x y \<le> 0 \<longrightarrow> localeCompare host y z \<le> 0
             \<longrightarrow> localeCompare host x z \<le> 0"
    and "department_name a \<noteq> None" "department_name b \<noteq> None" "department_name c \<noteq> None"
    and "compareEmployees host k ord a b \<le> 0" "compareEmployees host k ord b c \<le> 0"
  shows "compareEmployees host k ord a c \<le> 0"
proof -
  from prop_kind [of k] consider
      (str) x y z where "employee_prop a k = Some (VString x)" "employee_prop b k = Some (VString y)"
        "employee_prop c k = Some (VString z)"
    | (num) l m n where "employee_prop a k = Some (VNumber l)" "employee_prop b k = Some (VNumber m)"
        "employee_prop c k = Some (VNumber n)"
    | (none) "employee_prop a k = None" "employee_prop c k = None"
    using assms(2,3,4) by metis
  then show ?thesis
  proof cases
    case str
    with assms(1,5,6) show ?thesis
      by (cases ord) (auto simp: compareEmployees_def)
  next
    case num
    with assms(5,6) show ?thesis by (cases ord) (auto simp: compareEmployees_def)
  next
    case none
    then show ?thesis by (simp add: compareEmployees_def)
  qed
qed

lemma in_requested_order_iff:
  "in_requested_order host k ord a b \<longleftrightarrow> compareEmployees host k ord a b \<le> 0"
  by (auto simp: in_requested_order_def compareEmployees_def
      split: option.splits jsvalue.splits SortOrder.splits)

lemma filter_insert_sorted_tie:
  assumes tr: "\<And>a b c. a \<in> A \<Longrightarrow> b \<in> A \<Longrightarrow> c \<in> A \<Longrightarrow> cmp a b \<le> 0 \<Longrightarrow> cmp b c \<le> 0
               \<Longrightarrow> cmp a c \<le> 0"
    and x: "x \<in> A" and a: "a \<in> A"
  shows "set ys \<subseteq> A \<Longrightarrow>
         filter (\<lambda>b. cmp a b \<le> 0 \<and> cmp b a \<le> 0) (insert_sorted cmp x ys) =
           (if cmp a x \<le> 0 \<and> cmp x a \<le> 0
            then x # filter (\<lambda>b. cmp a b \<le> 0 \<and> cmp b a \<le> 0) ys
            else filter (\<lambda>b. cmp a b \<le> 0 \<and> cmp b a \<le> 0) ys)"
proof (induction ys)
  case Nil
  then show ?case by simp
next
  case (Cons y ys)
  from Cons.prems have y: "y \<in> A" and ys: "set ys \<subseteq> A" by simp_all
  show ?case
  proof (cases "cmp x y \<le> 0")
    case True
    then show ?thesis by simp
  next
    case False
    have "\<not> (cmp a x \<le> 0 \<and> cmp x a \<le> 0 \<and> cmp a y \<le> 0 \<and> cmp y a \<le> 0)"
      using tr [OF x a y] False by blast
    with False Cons.IH [OF ys] show ?thesis by auto
  qed
qed

lemma filter_array_sort_tie:
  assumes tr: "\<And>a b c. a \<in> A \<Longrightarrow> b \<in> A \<Longrightarrow> c \<in> A \<Longrightarrow> cmp a b \<le> 0 \<Longrightarrow> cmp b c \<le> 0
               \<Longrightarrow> cmp a c \<le> 0"
    and a: "a \<in> A"
  shows "set xs \<subseteq> A \<Longrightarrow>
         filter (\<lambda>b. cmp a b \<le> 0 \<and> cmp b a \<le> 0) (array_sort cmp xs) =
         filter (\<lambda>b. cmp a b \<le> 0 \<and> cmp b a \<le> 0) xs"
proof (induction xs)
  case Nil
  then show ?case by (simp add: array_sort_Nil)
next
  case (Cons x xs)
  from Cons.prems have x: "x \<in> A" and xs: "set xs \<subseteq> A" by simp_all
  have s: "set (array_sort cmp xs) \<subseteq> A" using xs by (simp add: set_array_sort)
  show ?case
    unfolding array_sort_Cons
    using filter_insert_sorted_tie [where cmp = cmp and A = A, OF tr x a s] Cons.IH [OF xs]
    by simp
qed

lemma search_filter_eq:
  assumes "toLowerCase host [] = []"
  shows "(case search of
            None \<Rightarrow> emps
          | Some q \<Rightarrow>
              if q = [] then emps
              else filter (\<lambda>emp. includes' (toLowerCase host (name emp)) (toLowerCase host q)
                                \<or> includes' (toLowerCase host (employee_id emp)) (toLowerCase host q))
                     emps)
         = filter (listing_matches host search None) emps"
proof (cases search)
  case None
  then show ?thesis by (simp add: listing_matches_def)
next
  case (Some q)
  show ?thesis
  proof (cases "q = []")
    case True
    with Some assms show ?thesis by (simp add: listing_matches_def)
  next
    case False
    with Some show ?thesis
      by (auto simp: listing_matches_def includes_sublist intro!: filter_cong)
  qed
qed

lemma listing_matches_department:
  "listing_matches host search (Some dept) =
     (\<lambda>e. listing_matches host search None e \<and> department_name e = Some dept)"
  by (intro ext) (simp add: listing_matches_def)

lemma department_name_not_empty:
  "e \<in> set (generateEmployees host draws n) \<Longrightarrow> department_name e \<noteq> Some []"
proof -
  assume "e \<in> set (generateEmployees host draws n)"
  then obtain k where e: "e = makeEmployee host (draws k) k"
    by (auto simp: generateEmployees_map)
  have "k mod 6 < 6" by simp
  then consider "k mod 6 = 0" | "k mod 6 = 1" | "k mod 6 = 2" | "k mod 6 = 3" | "k mod 6 = 4"
    | "k mod 6 = 5" by linarith
  then have "DEPARTMENTS (deptCodes ! (k mod length deptCodes)) \<noteq> Some []"
    by cases (simp_all add: deptCodes_def DEPARTMENTS_def)
  with e show ?thesis by (simp add: makeEmployee_def Let_def)
qed

subsection \<open>The page returned\<close>

lemma filterEmployees_given:
  assumes "toLowerCase host [] = []" and "department \<noteq> Some []"
  shows "filterEmployees host s (Some p) (Some sz) (Some sort_by) (Some ord) search department =
     (let matching = filter (listing_matches host search department) (MOCK_EMPLOYEES s);
          sorted_list = array_sort (compareEmployees host sort_by ord) matching
      in \<lparr>employees = slice sorted_list ((p - 1) * sz) ((p - 1) * sz + sz),
          total = int (length matching), page = p, page_size = sz,
          total_pages = Math_ceil_div (int (length matching)) sz\<rparr>)"
proof (cases department)
  case None
  show ?thesis
    unfolding filterEmployees_def Let_def option.case None
    unfolding search_filter_eq [OF assms(1)]
    by (simp add: length_array_sort)
next
  case (Some dept)
  with assms(2) have d: "dept \<noteq> []" by simp
  show ?thesis
    unfolding filterEmployees_def Let_def option.case Some
    unfolding search_filter_eq [OF assms(1)]
    using d by (simp add: length_array_sort listing_matches_department)
qed

lemma filterEmployees_empty_department:
  "filterEmployees host s page_opt page_size_opt sort_by_opt order_opt search (Some [])
     = filterEmployees host s page_opt page_size_opt sort_by_opt order_opt search None"
  by (simp add: filterEmployees_def)

text \<open>
  Claim C7, for a page size of at least one and a department that is not the empty
  string. For every page \<open>p \<ge> 1\<close>, page size \<open>sz \<ge> 1\<close>, sort field, sort order,
  search text and department other than the empty string, and a host whose collation
  compares any two strings and is transitive and whose lower-casing keeps the empty
  string: there is a list \<open>L\<close> that rearranges the records passing the filters (the
  lower-cased search text occurs in the lower-cased name or employee identifier, the
  department name equals the department), stands in the requested order of the sort
  field and keeps tied records in the order of the table, such that the listing returns
  the slice of \<open>L\<close> from \<open>(p - 1) * sz\<close> up to \<open>p * sz\<close>, the number of
  records passing the filters as \<open>total\<close>, and the ceiling of \<open>total / sz\<close> as
  \<open>total_pages\<close>. The empty string as department returns what no department
  returns.
\<close>

theorem listing_page:
  fixes p sz :: int
  assumes "1 \<le> p" and "1 \<le> sz" and "department \<noteq> Some []"
    and "\<forall>a b. localeCompare host a b \<le> 0 \<or> localeCompare host b a \<le> 0"
    and "\<forall>a b c. localeCompare host a b \<le> 0 \<longrightarrow> localeCompare host b c \<le> 0
           \<longrightarrow> localeCompare host a c \<le> 0"
    and "toLowerCase host [] = []"
  shows "let s = run (initial host draws clock) evs;
             matching = filter (listing_matches host search department) (MOCK_EMPLOYEES s);
             r = filterEmployees host s (Some p) (Some sz) (Some sort_by) (Some ord) search department
         in (\<exists>L. mset L = mset matching
              \<and> sorted_wrt (in_requested_order host sort_by ord) L
              \<and> (\<forall>a \<in> set matching.
                    filter (\<lambda>b. in_requested_order host sort_by ord a b
                                \<and> in_requested_order host sort_by ord b a) L
                    = filter (\<lambda>b. in_requested_order host sort_by ord a b
                                  \<and> in_requested_order host sort_by ord b a) matching)
              \<and> employees r = take (nat sz) (drop (nat ((p - 1) * sz)) L)
              \<and> total r = int (length matching)
              \<and> total_pages r = Finite \<lceil>(of_int (total r) :: rat) / of_int sz\<rceil>
              \<and> page r = p \<and> page_size r = sz)
            \<and> filterEmployees host s (Some p) (Some sz) (Some sort_by) (Some ord) search (Some [])
                = filterEmployees host s (Some p) (Some sz) (Some sort_by) (Some ord) search None"
proof -
  let ?s = "run (initial host draws clock) evs"
  let ?matching = "filter (listing_matches host search department) (MOCK_EMPLOYEES ?s)"
  let ?cmp = "compareEmployees host sort_by ord"
  let ?L = "array_sort ?cmp ?matching"
  let ?A = "{e. department_name e \<noteq> None}"
  have sub: "set ?matching \<subseteq> ?A"
    using department_name_generated [of _ host draws 500] by (auto simp: employees_of_run)
  have tot: "?cmp a b \<le> 0 \<or> ?cmp b a \<le> 0" if "a \<in> ?A" "b \<in> ?A" for a b
    using compare_total [OF assms(4), of a b sort_by ord] that by simp
  have tr: "?cmp a c \<le> 0" if "a \<in> ?A" "b \<in> ?A" "c \<in> ?A" "?cmp a b \<le> 0" "?cmp b c \<le> 0" for a b c
    using compare_trans [OF assms(5), of a b c sort_by ord] that by simp
  have io: "in_requested_order host sort_by ord = (\<lambda>a b. ?cmp a b \<le> 0)"
    by (intro ext) (simp add: in_requested_order_iff)
  have 1: "mset ?L = mset ?matching" by (rule mset_array_sort)
  have 2: "sorted_wrt (in_requested_order host sort_by ord) ?L"
    unfolding io by (rule sorted_array_sort [where A = ?A, OF tot tr sub])
  have 3: "filter (\<lambda>b. in_requested_order host sort_by ord a b \<and> in_requested_order host sort_by ord b a) ?L
      = filter (\<lambda>b. in_requested_order host sort_by ord a b \<and> in_requested_order host sort_by ord b a) ?matching"
    if "a \<in> set ?matching" for a
  proof -
    from that sub have a: "a \<in> ?A" by blast
    show ?thesis
      unfolding io by (rule filter_array_sort_tie [where A = ?A, OF tr a sub])
  qed
  have 4: "slice ?L ((p - 1) * sz) ((p - 1) * sz + sz) = take (nat sz) (drop (nat ((p - 1) * sz)) ?L)"
    by (rule slice_page [OF assms(1,2)])
  have 5: "Math_ceil_div (int (length ?matching)) sz
      = Finite \<lceil>(of_int (int (length ?matching)) :: rat) / of_int sz\<rceil>"
    using assms(2) by (simp add: Math_ceil_div_def)
  have 6: "\<exists>L. mset L = mset ?matching
              \<and> sorted_wrt (in_requested_order host sort_by ord) L
              \<and> (\<forall>a \<in> set ?matching.
                    filter (\<lambda>b. in_requested_order host sort_by ord a b
                                \<and> in_requested_order host sort_by ord b a) L
                    = filter (\<lambda>b. in_requested_order host sort_by ord a b
                                  \<and> in_requested_order host sort_by ord b a) ?matching)
              \<and> slice ?L ((p - 1) * sz) ((p - 1) * sz + sz) = take (nat sz) (drop (nat ((p - 1) * sz)) L)"
    using 1 2 3 4 by (intro exI [of _ ?L]) simp
  show ?thesis
    unfolding Let_def filterEmployees_given [OF assms(6,3)] filterEmployees_empty_department
    using 5 6 by simp
qed

lemma code_unit_compare_total: "\<forall>a b. code_unit_compare a b \<le> 0 \<or> code_unit_compare b a \<le> 0"
  by (auto simp: code_unit_compare_def)

lemma code_unit_compare_trans:
  "\<forall>a b c. code_unit_compare a b \<le> 0 \<longrightarrow> code_unit_compare b c \<le> 0 \<longrightarrow> code_unit_compare a c \<le> 0"
  by (auto simp: code_unit_compare_def split: if_splits)

theorem listing_page_witness:
  "(1 :: int) \<le> 2 \<and> (1 :: int) \<le> 20 \<and> Some ''Finance'' \<noteq> Some []
   \<and> toLowerCase example_host [] = []
   \<and> length (employees (filterEmployees example_host example_initial
        (Some 2) (Some 20) (Some ''salary'') (Some Desc) None None)) = 20
   \<and> total (filterEmployees example_host example_initial
        (Some 2) (Some 20) (Some ''salary'') (Some Desc) None None) = 500
   \<and> total_pages (filterEmployees example_host example_initial
        (Some 2) (Some 20) (Some ''salary'') (Some Desc) None None) = Finite 25
   \<and> total (filterEmployees example_host example_initial
        (Some 2) (Some 20) (Some ''salary'') (Some Desc) None (Some ''Finance''))
       = int (length (filter (\<lambda>e. department_name e = Some ''Finance'')
           (MOCK_EMPLOYEES example_initial)))"
proof -
  have h1: "(1 :: int) \<le> 2" and h2: "(1 :: int) \<le> 20" by simp_all
  have h3: "Some ''Finance'' \<noteq> Some []" and h3': "(None :: string option) \<noteq> Some []" by simp_all
  have h4: "\<forall>a b. localeCompare example_host a b \<le> 0 \<or> localeCompare example_host b a \<le> 0"
    using code_unit_compare_total by (simp add: example_host_def)
  have h5: "\<forall>a b c. localeCompare example_host a b \<le> 0 \<longrightarrow> localeCompare example_host b c \<le> 0
      \<longrightarrow> localeCompare example_host a c \<le> 0"
    using code_unit_compare_trans by (simp add: example_host_def)
  have h6: "toLowerCase example_host [] = []"
    by (simp add: example_host_def ascii_toLowerCase_def)
  have m: "filter (listing_matches example_host None None) (MOCK_EMPLOYEES example_initial)
      = generateEmployees example_host example_draws 500"
    by (simp add: listing_matches_def example_initial_def initial_def)
  from listing_page [OF h1 h2 h3' h4 h5 h6, of example_draws "\<lambda>k. 1763303535000" "[]" None
      "''salary''" Desc]
  obtain L where L: "mset L = mset (generateEmployees example_host example_draws 500)"
    "employees (filterEmployees example_host example_initial
        (Some 2) (Some 20) (Some ''salary'') (Some Desc) None None) = take 20 (drop 20 L)"
    "total (filterEmployees example_host example_initial
        (Some 2) (Some 20) (Some ''salary'') (Some Desc) None None) = 500"
    "total_pages (filterEmployees example_host example_initial
        (Some 2) (Some 20) (Some ''salary'') (Some Desc) None None) = Finite 25"
    unfolding Let_def run.simps example_initial_def [symmetric] m
    by (auto simp: length_generateEmployees)
  have lm: "listing_matches example_host None (Some ''Finance'')
      = (\<lambda>e. department_name e = Some ''Finance'')"
    by (intro ext) (simp add: listing_matches_def)
  from L(1) have "length L = 500"
    by (metis length_generateEmployees size_mset)
  moreover from listing_page [OF h1 h2 h3 h4 h5 h6, of example_draws "\<lambda>k. 1763303535000" "[]" None
      "''salary''" Desc]
  have "total (filterEmployees example_host example_initial
        (Some 2) (Some 20) (Some ''salary'') (Some Desc) None (Some ''Finance''))
       = int (length (filter (\<lambda>e. department_name e = Some ''Finance'')
           (MOCK_EMPLOYEES example_initial)))"
    unfolding Let_def run.simps example_initial_def [symmetric] lm
    by auto
  ultimately show ?thesis using L h6 by simp
qed

text \<open>
  Claim C7 as stated fails at page 1 with page size \<open>- 1\<close>: the slice from 0 up to
  \<open>- 1\<close> of the sorted table is empty, while \<^verbatim>\<open>slice(0, -1)\<close> returns all
  records but the last. It fails at page 1 with page size 20 and the empty string as
  department as well: no record has the empty string as department name, while the
  listing skips the empty department and returns the first twenty records.
\<close>

theorem listing_page_counterexample:
  "\<not> (employees (filterEmployees example_host example_initial
          (Some 1) (Some (- 1)) (Some ''employee_id'') (Some Asc) None None)
       = take (nat (- 1)) (drop (nat ((1 - 1) * (- 1)))
           (array_sort (compareEmployees example_host ''employee_id'' Asc)
              (filter (listing_matches example_host None None) (MOCK_EMPLOYEES example_initial)))))
   \<and> \<not> (employees (filterEmployees example_host example_initial
          (Some 1) (Some 20) (Some ''employee_id'') (Some Asc) None (Some []))
       = take (nat 20) (drop (nat ((1 - 1) * 20))
           (array_sort (compareEmployees example_host ''employee_id'' Asc)
              (filter (listing_matches example_host None (Some [])) (MOCK_EMPLOYEES example_initial)))))"
proof -
  have h: "toLowerCase example_host [] = []"
    by (simp add: example_host_def ascii_toLowerCase_def)
  have e: "MOCK_EMPLOYEES example_initial = generateEmployees example_host example_draws 500"
    by (simp add: example_initial_def initial_def)
  have m: "filter (listing_matches example_host None None) (MOCK_EMPLOYEES example_initial)
      = generateEmployees example_host example_draws 500"
    by (simp add: listing_matches_def e)
  have n: "filter (listing_matches example_host None (Some [])) (MOCK_EMPLOYEES example_initial) = []"
    using department_name_not_empty [of _ example_host example_draws 500]
    by (auto simp: listing_matches_def e filter_empty_conv)
  have "length (employees (filterEmployees example_host example_initial
          (Some 1) (Some (- 1)) (Some ''employee_id'') (Some Asc) None None)) = 499"
    by (simp add: filterEmployees_given [OF h] m slice_def Let_def length_array_sort
        length_generateEmployees)
  moreover have "length (employees (filterEmployees example_host example_initial
          (Some 1) (Some 20) (Some ''employee_id'') (Some Asc) None (Some []))) = 20"
    unfolding filterEmployees_empty_department
    by (simp add: filterEmployees_given [OF h] m slice_def Let_def length_array_sort
        length_generateEmployees)
  ultimately show ?thesis
    unfolding n by (auto simp: array_sort_Nil)
qed

end
